theory Spec2Isabelle
  imports Main "HOL-Library.Word"
begin

section \<open>The iTLS adapter of the HAL (HAL\_TLS\_itls.c)\<close>

text \<open>
  The file wraps an external TLS library. Every call that leaves the file (the TLS
  library, the socket layer, the allocator) is recorded as an event that carries the
  arguments of the call and, where the code looks at it, the value the call returned.
  The values those calls return are inputs of the model. Logging (\<open>SSL_LOG\<close>) and
  the time stamps taken with \<open>gettimeofday\<close> do not influence any result and are
  left out. The functions keep their C names; a name cannot start with an
  underscore here, so \<open>_network_ssl_read\<close>, \<open>_network_ssl_write\<close>,
  \<open>_network_ssl_disconnect\<close> and \<open>_TLSConnectNetwork\<close> lose theirs.
\<close>

subsection \<open>Machine types\<close>

text \<open>
  A C \<open>int\<close> is a 32-bit word read through \<open>sint\<close>; \<open>uint32_t\<close> is the same word
  read through \<open>uint\<close>. The conversions between the two that the C code performs
  implicitly keep the bits, so they are the identity here. A pointer or
  \<open>uintptr_t\<close> is an address, with 0 for \<open>NULL\<close>.
\<close>

type_synonym int32 = "32 word"
type_synonym uint32 = "32 word"
type_synonym uintptr_t = nat

definition NULL :: uintptr_t where
  "NULL = 0"

subsection \<open>Macros of the library headers\<close>

text \<open>
  The error codes and version numbers come from \<open>itls/ssl.h\<close> and \<open>itls/net.h\<close>,
  which are not part of the file. They are a parameter of every function that
  uses one of them.
\<close>

record itls_macros =
  MBEDTLS_ERR_SSL_PEER_CLOSE_NOTIFY :: int32
  MBEDTLS_ERR_SSL_TIMEOUT :: int32
  MBEDTLS_ERR_SSL_CONN_EOF :: int32
  MBEDTLS_ERR_SSL_SESSION_TICKET_EXPIRED :: int32
  MBEDTLS_ERR_SSL_NON_FATAL :: int32
  MBEDTLS_ERR_SSL_WANT_READ :: int32
  MBEDTLS_ERR_SSL_WANT_WRITE :: int32
  MBEDTLS_ERR_NET_UNKNOWN_HOST :: int32
  MBEDTLS_ERR_NET_SOCKET_FAILED :: int32
  MBEDTLS_ERR_NET_CONNECT_FAILED :: int32
  MBEDTLS_SSL_MAJOR_VERSION_3 :: int32
  MBEDTLS_SSL_MINOR_VERSION_3 :: int32

text \<open>The values the mbedTLS headers give these macros; used for concrete runs.\<close>

definition mbedtls_macros :: itls_macros where
  "mbedtls_macros =
     \<lparr> MBEDTLS_ERR_SSL_PEER_CLOSE_NOTIFY = - 0x7880,
       MBEDTLS_ERR_SSL_TIMEOUT = - 0x6800,
       MBEDTLS_ERR_SSL_CONN_EOF = - 0x7280,
       MBEDTLS_ERR_SSL_SESSION_TICKET_EXPIRED = - 0x6D80,
       MBEDTLS_ERR_SSL_NON_FATAL = - 0x6680,
       MBEDTLS_ERR_SSL_WANT_READ = - 0x6900,
       MBEDTLS_ERR_SSL_WANT_WRITE = - 0x6880,
       MBEDTLS_ERR_NET_UNKNOWN_HOST = - 0x0052,
       MBEDTLS_ERR_NET_SOCKET_FAILED = - 0x0042,
       MBEDTLS_ERR_NET_CONNECT_FAILED = - 0x0044,
       MBEDTLS_SSL_MAJOR_VERSION_3 = 3,
       MBEDTLS_SSL_MINOR_VERSION_3 = 3 \<rparr>"

datatype net_proto = MBEDTLS_NET_PROTO_TCP | MBEDTLS_NET_PROTO_UDP

datatype ai_family_t = AF_UNSPEC | AF_INET | AF_INET6
datatype ai_socktype_t = SOCK_STREAM | SOCK_DGRAM
datatype ai_protocol_t = IPPROTO_TCP | IPPROTO_UDP

definition SEND_TIMEOUT_SECONDS :: nat where
  "SEND_TIMEOUT_SECONDS = 10"

subsection \<open>Calls that leave the file\<close>

datatype event =
    Ev_HAL_Malloc uintptr_t
  | Ev_memset uintptr_t
  | Ev_HAL_Free uintptr_t
  | Ev_signal_SIGPIPE_IGN
  | Ev_getaddrinfo string string ai_family_t ai_socktype_t ai_protocol_t
  | Ev_socket ai_family_t ai_socktype_t ai_protocol_t int32
  | Ev_setsockopt_SO_SNDTIMEO int32 nat
  | Ev_connect int32 string
  | Ev_close int32
  | Ev_freeaddrinfo
  | Ev_net_connect uintptr_t string string net_proto
  | Ev_ssl_init uintptr_t
  | Ev_net_init uintptr_t
  | Ev_ssl_config_init uintptr_t
  | Ev_ssl_config_defaults uintptr_t
  | Ev_ssl_conf_max_version uintptr_t int32 int32
  | Ev_ssl_conf_min_version uintptr_t int32 int32
  | Ev_ssl_conf_rng uintptr_t
  | Ev_ssl_conf_dbg uintptr_t
  | Ev_ssl_conf_auth_extra uintptr_t string nat
  | Ev_ssl_setup uintptr_t
  | Ev_ssl_set_bio uintptr_t
  | Ev_ssl_handshake uintptr_t int32
  | Ev_net_free uintptr_t
  | Ev_ssl_free uintptr_t
  | Ev_ssl_config_free uintptr_t
  | Ev_ssl_close_notify uintptr_t
  | Ev_ssl_conf_read_timeout uintptr_t int32
  | Ev_ssl_read uintptr_t uint32 uint32 int32
  | Ev_ssl_write uintptr_t uint32 uint32 int32

subsection \<open>\<open>_network_ssl_read\<close>\<close>

text \<open>
  The loop of \<open>_network_ssl_read\<close>. \<open>st\<close> is the function's static variable
  \<open>net_status\<close>, \<open>readLen\<close> the unsigned count, \<open>es\<close> the calls made so far and
  the list holds the values the coming calls of \<open>mbedtls_ssl_read\<close> return. The
  comparison \<open>readLen < len\<close> is unsigned, as C converts \<open>len\<close> to \<open>uint32_t\<close>.
  The result is the returned \<open>int\<close>, the new \<open>net_status\<close>, the calls made and the
  return values not consumed; \<open>None\<close> when the loop asks for a call the list does
  not hold.
\<close>

fun read_loop ::
  "itls_macros \<Rightarrow> uintptr_t \<Rightarrow> int32 \<Rightarrow> int32 \<Rightarrow> uint32 \<Rightarrow> event list \<Rightarrow> int32 list
     \<Rightarrow> (int32 \<times> int32 \<times> event list \<times> int32 list) option" where
  "read_loop K p len st readLen es [] =
     (if readLen < len then None
      else Some (if 0 < readLen then readLen else st, st, es, []))"
| "read_loop K p len st readLen es (ret # rs) =
     (if readLen < len then
        (let es' = es @ [Ev_ssl_read p readLen (len - readLen) ret] in
         if 0 <s ret then read_loop K p len 0 (readLen + ret) es' rs
         else if ret = 0 then Some (if st = - 2 then st else readLen, st, es', rs)
         else if ret = MBEDTLS_ERR_SSL_PEER_CLOSE_NOTIFY K then
           Some (if 0 < readLen then readLen else - 2, - 2, es', rs)
         else if ret = MBEDTLS_ERR_SSL_TIMEOUT K
               \<or> ret = MBEDTLS_ERR_SSL_CONN_EOF K
               \<or> ret = MBEDTLS_ERR_SSL_SESSION_TICKET_EXPIRED K
               \<or> ret = MBEDTLS_ERR_SSL_NON_FATAL K then
           Some (readLen, st, es', rs)
         else Some (- 1, - 1, es', rs))
      else Some (if 0 < readLen then readLen else st, st, es, ret # rs))"

definition network_ssl_read ::
  "itls_macros \<Rightarrow> uintptr_t \<Rightarrow> int32 \<Rightarrow> int32 \<Rightarrow> int32 \<Rightarrow> int32 list
     \<Rightarrow> (int32 \<times> int32 \<times> event list \<times> int32 list) option" where
  "network_ssl_read K pTlsData len timeout_ms net_status rets =
     read_loop K pTlsData len net_status 0 [Ev_ssl_conf_read_timeout pTlsData timeout_ms] rets"

subsection \<open>\<open>_network_ssl_write\<close>\<close>

text \<open>
  The loop of \<open>_network_ssl_write\<close>; the list holds the values the coming calls
  of \<open>mbedtls_ssl_write\<close> return. The parameter \<open>timeout_ms\<close> is not used by the
  C function.
\<close>

fun write_loop ::
  "uintptr_t \<Rightarrow> int32 \<Rightarrow> uint32 \<Rightarrow> event list \<Rightarrow> int32 list
     \<Rightarrow> (int32 \<times> event list \<times> int32 list) option" where
  "write_loop p len writtenLen es [] =
     (if writtenLen < len then None else Some (writtenLen, es, []))"
| "write_loop p len writtenLen es (ret # rs) =
     (if writtenLen < len then
        (let es' = es @ [Ev_ssl_write p writtenLen (len - writtenLen) ret] in
         if 0 <s ret then write_loop p len (writtenLen + ret) es' rs
         else if ret = 0 then Some (0, es', rs)
         else Some (- 1, es', rs))
      else Some (writtenLen, es, ret # rs))"

definition network_ssl_write ::
  "uintptr_t \<Rightarrow> int32 \<Rightarrow> int32 \<Rightarrow> int32 list
     \<Rightarrow> (int32 \<times> event list \<times> int32 list) option" where
  "network_ssl_write pTlsData len timeout_ms rets = write_loop pTlsData len 0 [] rets"

subsection \<open>The public read and write calls\<close>

text \<open>
  What lives outside a single call: the static \<open>net_status\<close> of
  \<open>_network_ssl_read\<close>, of which the program has one copy, and for every
  connection (addressed by its handle) the values its coming
  \<open>mbedtls_ssl_read\<close> and \<open>mbedtls_ssl_write\<close> calls return.
\<close>

record world =
  net_status :: int32
  ssl_read_rets :: "uintptr_t \<Rightarrow> int32 list"
  ssl_write_rets :: "uintptr_t \<Rightarrow> int32 list"

definition HAL_iTLS_Read ::
  "itls_macros \<Rightarrow> uintptr_t \<Rightarrow> int32 \<Rightarrow> int32 \<Rightarrow> world \<Rightarrow> (int32 \<times> event list \<times> world) option" where
  "HAL_iTLS_Read K handle len timeout_ms w =
     (case network_ssl_read K handle len timeout_ms (net_status w) (ssl_read_rets w handle) of
        None \<Rightarrow> None
      | Some (r, st, es, rest) \<Rightarrow>
          Some (r, es, w\<lparr>net_status := st, ssl_read_rets := (ssl_read_rets w)(handle := rest)\<rparr>))"

definition HAL_iTLS_Write ::
  "uintptr_t \<Rightarrow> int32 \<Rightarrow> int32 \<Rightarrow> world \<Rightarrow> (int32 \<times> event list \<times> world) option" where
  "HAL_iTLS_Write handle len timeout_ms w =
     (case network_ssl_write handle len timeout_ms (ssl_write_rets w handle) of
        None \<Rightarrow> None
      | Some (r, es, rest) \<Rightarrow>
          Some (r, es, w\<lparr>ssl_write_rets := (ssl_write_rets w)(handle := rest)\<rparr>))"

subsection \<open>Reading a trace of calls\<close>

text \<open>The bytes a call of the library delivered or accepted: its return value when positive.\<close>

fun read_bytes_of :: "event \<Rightarrow> int" where
  "read_bytes_of (Ev_ssl_read p off sz ret) = (if 0 <s ret then sint ret else 0)"
| "read_bytes_of _ = 0"

definition bytes_read :: "event list \<Rightarrow> int" where
  "bytes_read es = sum_list (map read_bytes_of es)"

fun written_bytes_of :: "event \<Rightarrow> int" where
  "written_bytes_of (Ev_ssl_write p off sz ret) = (if 0 <s ret then sint ret else 0)"
| "written_bytes_of _ = 0"

definition bytes_written :: "event list \<Rightarrow> int" where
  "bytes_written es = sum_list (map written_bytes_of es)"

text \<open>The read timeouts a trace configures, and the values the library returned in it.\<close>

fun timeout_of :: "event \<Rightarrow> int32 list" where
  "timeout_of (Ev_ssl_conf_read_timeout p t) = [t]"
| "timeout_of _ = []"

definition timeouts_applied :: "event list \<Rightarrow> int32 list" where
  "timeouts_applied es = concat (map timeout_of es)"

fun lib_ret_of :: "event \<Rightarrow> int32 list" where
  "lib_ret_of (Ev_ssl_read p off sz ret) = [ret]"
| "lib_ret_of (Ev_ssl_write p off sz ret) = [ret]"
| "lib_ret_of _ = []"

definition lib_rets :: "event list \<Rightarrow> int32 list" where
  "lib_rets es = concat (map lib_ret_of es)"

text \<open>
  The library's side of the interface: \<open>mbedtls_ssl_read\<close> and
  \<open>mbedtls_ssl_write\<close> are asked for \<open>len - done\<close> bytes and return at most
  that many. The predicate follows the calls the loop makes: it constrains a
  return value only while the loop still asks for one.
\<close>

fun ssl_io_contract :: "uint32 \<Rightarrow> int32 \<Rightarrow> int32 list \<Rightarrow> bool" where
  "ssl_io_contract done len [] = True"
| "ssl_io_contract done len (ret # rs) =
     (if done < len then
        sint ret \<le> uint (len - done)
        \<and> (if 0 <s ret then ssl_io_contract (done + ret) len rs else True)
      else True)"

definition net_status_ok :: "int32 \<Rightarrow> bool" where
  "net_status_ok st = (st = 0 \<or> st = - 1 \<or> st = - 2)"

definition is_timeout_code :: "itls_macros \<Rightarrow> int32 \<Rightarrow> bool" where
  "is_timeout_code K ret =
     (ret = MBEDTLS_ERR_SSL_TIMEOUT K \<or> ret = MBEDTLS_ERR_SSL_CONN_EOF K
      \<or> ret = MBEDTLS_ERR_SSL_SESSION_TICKET_EXPIRED K \<or> ret = MBEDTLS_ERR_SSL_NON_FATAL K)"

subsection \<open>\<open>mbedtls_net_connect_timeout\<close> (the Linux build)\<close>

text \<open>
  One entry of the list \<open>getaddrinfo\<close> returns, together with what \<open>socket\<close>
  and \<open>connect\<close> return when called for it. The value of \<open>setsockopt\<close> is not
  modelled: the code only logs it.
\<close>

record addr_try =
  ai_family :: ai_family_t
  ai_socktype :: ai_socktype_t
  ai_protocol :: ai_protocol_t
  ai_addr :: string
  socket_ret :: int32
  connect_ret :: int32

definition net_prepare :: "int32 \<times> event list" where
  "net_prepare = (0, [Ev_signal_SIGPIPE_IGN])"

text \<open>
  The \<open>for\<close> loop over the address list: \<open>ret\<close> and \<open>fd\<close> are the current
  values of \<open>ret\<close> and \<open>ctx->fd\<close>.
\<close>

fun connect_loop ::
  "itls_macros \<Rightarrow> nat \<Rightarrow> int32 \<Rightarrow> int32 \<Rightarrow> addr_try list \<Rightarrow> int32 \<times> int32 \<times> event list" where
  "connect_loop K timeout ret fd [] = (ret, fd, [])"
| "connect_loop K timeout ret fd (cur # nxt) =
     (let fd' = socket_ret cur;
          e_socket = Ev_socket (ai_family cur) (ai_socktype cur) (ai_protocol cur) fd'
      in if fd' <s 0 then
           (case connect_loop K timeout (MBEDTLS_ERR_NET_SOCKET_FAILED K) fd' nxt of
              (r, f, es) \<Rightarrow> (r, f, e_socket # es))
         else
           (let e_try = [e_socket, Ev_setsockopt_SO_SNDTIMEO fd' timeout,
                         Ev_connect fd' (ai_addr cur)]
            in if connect_ret cur = 0 then (0, fd', e_try)
               else (case connect_loop K timeout (MBEDTLS_ERR_NET_CONNECT_FAILED K) fd' nxt of
                       (r, f, es) \<Rightarrow> (r, f, e_try @ Ev_close fd' # es))))"

definition mbedtls_net_connect_timeout ::
  "itls_macros \<Rightarrow> addr_try list option \<Rightarrow> int32 \<Rightarrow> string \<Rightarrow> string \<Rightarrow> net_proto \<Rightarrow> nat
     \<Rightarrow> int32 \<times> int32 \<times> event list" where
  "mbedtls_net_connect_timeout K getaddrinfo_ret fd host port proto timeout =
     (case net_prepare of (ret, e_prep) \<Rightarrow>
        if ret \<noteq> 0 then (ret, fd, e_prep)
        else
          (let socktype = (if proto = MBEDTLS_NET_PROTO_UDP then SOCK_DGRAM else SOCK_STREAM);
               protocol = (if proto = MBEDTLS_NET_PROTO_UDP then IPPROTO_UDP else IPPROTO_TCP);
               e_gai = e_prep @ [Ev_getaddrinfo host port AF_UNSPEC socktype protocol]
           in case getaddrinfo_ret of
                None \<Rightarrow> (MBEDTLS_ERR_NET_UNKNOWN_HOST K, fd, e_gai)
              | Some addr_list \<Rightarrow>
                  (case connect_loop K timeout (MBEDTLS_ERR_NET_UNKNOWN_HOST K) fd addr_list of
                     (r, f, es) \<Rightarrow> (r, f, e_gai @ es @ [Ev_freeaddrinfo]))))"

subsection \<open>\<open>_TLSConnectNetwork\<close>\<close>

text \<open>
  What the environment answers during one establish: the pointer \<open>HAL_Malloc\<close>
  returns, the outcome of name resolution (\<open>None\<close> when \<open>getaddrinfo\<close> fails),
  the value of \<open>mbedtls_net_connect\<close> where the build is not for Linux, and the
  values of the configuration calls and of the successive handshake calls.
\<close>

record establish_env =
  PLATFORM_IS_LINUX :: bool
  HAL_Malloc_ret :: uintptr_t
  getaddrinfo_ret :: "addr_try list option"
  net_connect_ret :: int32
  ssl_config_defaults_ret :: int32
  ssl_conf_auth_extra_ret :: int32
  ssl_setup_ret :: int32
  ssl_handshake_rets :: "int32 list"

text \<open>The handshake loop; \<open>None\<close> when the list of return values runs out.\<close>

fun handshake_loop :: "itls_macros \<Rightarrow> uintptr_t \<Rightarrow> int32 list \<Rightarrow> (int32 \<times> event list) option" where
  "handshake_loop K p [] = None"
| "handshake_loop K p (ret # rs) =
     (if ret \<noteq> 0 then
        (if ret \<noteq> MBEDTLS_ERR_SSL_WANT_READ K \<and> ret \<noteq> MBEDTLS_ERR_SSL_WANT_WRITE K
         then Some (ret, [Ev_ssl_handshake p ret])
         else (case handshake_loop K p rs of
                 None \<Rightarrow> None
               | Some (r, es) \<Rightarrow> Some (r, Ev_ssl_handshake p ret # es)))
      else Some (ret, [Ev_ssl_handshake p ret]))"

text \<open>The code at the label \<open>_out\<close>.\<close>

definition out_label :: "uintptr_t \<Rightarrow> int32 \<Rightarrow> event list" where
  "out_label p ret =
     (if ret \<noteq> 0 then [Ev_net_free p, Ev_ssl_free p, Ev_ssl_config_free p] else [])"

definition net_connect_step ::
  "itls_macros \<Rightarrow> establish_env \<Rightarrow> uintptr_t \<Rightarrow> string \<Rightarrow> string \<Rightarrow> int32 \<times> event list" where
  "net_connect_step K env p addr port =
     (if PLATFORM_IS_LINUX env then
        (case mbedtls_net_connect_timeout K (getaddrinfo_ret env) (- 1) addr port
                MBEDTLS_NET_PROTO_TCP SEND_TIMEOUT_SECONDS of
           (r, f, es) \<Rightarrow> (r, es))
      else (net_connect_ret env, [Ev_net_connect p addr port MBEDTLS_NET_PROTO_TCP]))"

definition TLSConnectNetwork ::
  "itls_macros \<Rightarrow> establish_env \<Rightarrow> uintptr_t \<Rightarrow> string \<Rightarrow> string \<Rightarrow> string
     \<Rightarrow> (int32 \<times> event list) option" where
  "TLSConnectNetwork K env p addr port product_key =
     (let e_init = [Ev_ssl_init p, Ev_net_init p, Ev_ssl_config_init p]
      in case net_connect_step K env p addr port of (ret, e_conn) \<Rightarrow>
      if 0 \<noteq> ret then Some (ret, e_init @ e_conn)
      else
        (let ret = ssl_config_defaults_ret env;
             e_dflt = e_init @ e_conn @ [Ev_ssl_config_defaults p]
         in if ret \<noteq> 0 then Some (ret, e_dflt @ out_label p ret)
         else
           (let e_conf = e_dflt @
                  [Ev_ssl_conf_max_version p (MBEDTLS_SSL_MAJOR_VERSION_3 K) (MBEDTLS_SSL_MINOR_VERSION_3 K),
                   Ev_ssl_conf_min_version p (MBEDTLS_SSL_MAJOR_VERSION_3 K) (MBEDTLS_SSL_MINOR_VERSION_3 K),
                   Ev_ssl_conf_rng p, Ev_ssl_conf_dbg p,
                   Ev_ssl_conf_auth_extra p product_key (length product_key)];
                ret = ssl_conf_auth_extra_ret env
            in if ret \<noteq> 0 then Some (ret, e_conf @ out_label p ret)
            else
              (let ret = ssl_setup_ret env;
                   e_setup = e_conf @ [Ev_ssl_setup p]
               in if ret \<noteq> 0 then Some (ret, e_setup @ out_label p ret)
               else
                 (case handshake_loop K p (ssl_handshake_rets env) of
                    None \<Rightarrow> None
                  | Some (ret, e_hs) \<Rightarrow>
                      Some (ret, e_setup @ [Ev_ssl_set_bio p] @ e_hs @ out_label p ret))))))"

subsection \<open>\<open>HAL_iTLS_Establish\<close> and \<open>HAL_iTLS_Destroy\<close>\<close>

text \<open>\<open>sprintf\<close> with \<open>"%u"\<close>: the decimal digits of an unsigned value.\<close>

definition digit_char :: "nat \<Rightarrow> char" where
  "digit_char d = ''0123456789'' ! d"

fun utoa :: "nat \<Rightarrow> string" where
  "utoa n = (if n < 10 then [digit_char n] else utoa (n div 10) @ [digit_char (n mod 10)])"

definition sprintf_u :: "16 word \<Rightarrow> string" where
  "sprintf_u port = utoa (unat port)"

text \<open>The bytes \<open>sprintf\<close> stores: the digits and the terminating zero byte.\<close>

definition sprintf_u_stored :: "16 word \<Rightarrow> nat" where
  "sprintf_u_stored port = length (sprintf_u port) + 1"

definition port_str_size :: nat where
  "port_str_size = 6"

definition HAL_iTLS_Establish ::
  "itls_macros \<Rightarrow> establish_env \<Rightarrow> string \<Rightarrow> 16 word \<Rightarrow> string \<Rightarrow> (uintptr_t \<times> event list) option" where
  "HAL_iTLS_Establish K env host port product_key =
     (let pTlsData = HAL_Malloc_ret env
      in if NULL = pTlsData then Some (NULL, [Ev_HAL_Malloc pTlsData])
         else
           (let port_str = sprintf_u port
            in case TLSConnectNetwork K env pTlsData host port_str product_key of
                 None \<Rightarrow> None
               | Some (ret, es) \<Rightarrow>
                   if 0 \<noteq> ret
                   then Some (NULL, [Ev_HAL_Malloc pTlsData, Ev_memset pTlsData] @ es
                                    @ [Ev_HAL_Free pTlsData])
                   else Some (pTlsData, [Ev_HAL_Malloc pTlsData, Ev_memset pTlsData] @ es)))"

definition network_ssl_disconnect :: "uintptr_t \<Rightarrow> event list" where
  "network_ssl_disconnect pTlsData =
     [Ev_ssl_close_notify pTlsData, Ev_net_free pTlsData, Ev_ssl_free pTlsData,
      Ev_ssl_config_free pTlsData]"

definition HAL_iTLS_Destroy :: "uintptr_t \<Rightarrow> int32 \<times> event list" where
  "HAL_iTLS_Destroy handle =
     (if NULL = handle then (0, [])
      else (0, network_ssl_disconnect handle @ [Ev_HAL_Free handle]))"

subsection \<open>Resources a trace leaves live\<close>

datatype resource =
    Handle_memory uintptr_t
  | Ssl_context uintptr_t
  | Net_context uintptr_t
  | Config_context uintptr_t

fun live_step :: "resource set \<Rightarrow> event \<Rightarrow> resource set" where
  "live_step L (Ev_HAL_Malloc p) = (if p = NULL then L else insert (Handle_memory p) L)"
| "live_step L (Ev_HAL_Free p) = L - {Handle_memory p}"
| "live_step L (Ev_ssl_init p) = insert (Ssl_context p) L"
| "live_step L (Ev_ssl_free p) = L - {Ssl_context p}"
| "live_step L (Ev_net_init p) = insert (Net_context p) L"
| "live_step L (Ev_net_free p) = L - {Net_context p}"
| "live_step L (Ev_ssl_config_init p) = insert (Config_context p) L"
| "live_step L (Ev_ssl_config_free p) = L - {Config_context p}"
| "live_step L _ = L"

definition live_resources :: "event list \<Rightarrow> resource set" where
  "live_resources es = foldl live_step {} es"

subsection \<open>The outcome of a read, as a table\<close>

text \<open>
  The return value of the last \<open>mbedtls_ssl_read\<close> call of a trace (\<open>None\<close>
  when the trace holds no such call).
\<close>

definition last_ret :: "event list \<Rightarrow> int32 option" where
  "last_ret es = (if lib_rets es = [] then None else Some (last (lib_rets es)))"

text \<open>
  What a read returns, by the value \<open>st0\<close> of \<open>net_status\<close> at entry, the
  number \<open>n\<close> of bytes the call received and the return value of its last library
  call: the byte count when the buffer fills or on one of the timeout codes (so 0
  on a timeout without data), -1 on any other negative code; on a peer close
  notify -2 only when the call received nothing, the byte count otherwise; on a
  library return of 0 the value -2 when nothing was received and a close was
  recorded before. A call that makes no library call (\<open>len = 0\<close>) returns
  \<open>net_status\<close> as it found it. \<open>read_status_for\<close> is the value the call
  leaves in \<open>net_status\<close>.
\<close>

definition read_result_for :: "itls_macros \<Rightarrow> int32 \<Rightarrow> int \<Rightarrow> int32 option \<Rightarrow> int" where
  "read_result_for K st0 n l =
     (case l of
        None \<Rightarrow> sint st0
      | Some ret \<Rightarrow>
          if 0 <s ret then n
          else if ret = 0 then (if n = 0 \<and> st0 = - 2 then - 2 else n)
          else if ret = MBEDTLS_ERR_SSL_PEER_CLOSE_NOTIFY K then (if n = 0 then - 2 else n)
          else if is_timeout_code K ret then n
          else - 1)"

definition read_status_for :: "itls_macros \<Rightarrow> int32 \<Rightarrow> int \<Rightarrow> int32 option \<Rightarrow> int32" where
  "read_status_for K st0 n l =
     (case l of
        None \<Rightarrow> st0
      | Some ret \<Rightarrow>
          if 0 <s ret then 0
          else if ret = 0 then (if n = 0 then st0 else 0)
          else if ret = MBEDTLS_ERR_SSL_PEER_CLOSE_NOTIFY K then - 2
          else if is_timeout_code K ret then (if n = 0 then st0 else 0)
          else - 1)"

text \<open>
  The calls of a read, written from the values the library returns.
  \<open>answers_used k rets\<close> is the part of \<open>rets\<close> the loop consumes while \<open>k\<close> bytes
  are still asked for: it goes on after a positive value and stops after the first
  value that is not positive, or when no byte is missing. \<open>read_calls\<close> lists the
  \<open>mbedtls_ssl_read\<close> call made for each of these values, \<open>n\<close> being the bytes
  read before it.
\<close>

fun answers_used :: "int \<Rightarrow> int32 list \<Rightarrow> int32 list" where
  "answers_used k [] = []"
| "answers_used k (ret # rs) =
     (if k \<le> 0 then []
      else if 0 <s ret then ret # answers_used (k - sint ret) rs
      else [ret])"

fun read_calls :: "uintptr_t \<Rightarrow> int32 \<Rightarrow> uint32 \<Rightarrow> int32 list \<Rightarrow> event list" where
  "read_calls p len n [] = []"
| "read_calls p len n (ret # rs) = Ev_ssl_read p n (len - n) ret # read_calls p len (n + ret) rs"

subsection \<open>Concrete runs\<close>

text \<open>A connection for which no library return value is given.\<close>

definition quiet :: "uintptr_t \<Rightarrow> int32 list" where
  "quiet h = []"

text \<open>
  Connection 1 delivers 4 bytes and then the peer's close notify; no close has been
  recorded before.
\<close>

definition w_close_after_4 :: world where
  "w_close_after_4 =
     \<lparr>net_status = 0, ssl_read_rets = quiet(1 := [4, - 0x7880]), ssl_write_rets = quiet\<rparr>"

text \<open>
  Connection 1 answers the next read and the next write with the library's
  \<open>MBEDTLS_ERR_SSL_BAD_INPUT_DATA\<close> (-0x7100).
\<close>

definition w_bad_input :: world where
  "w_bad_input =
     \<lparr>net_status = 0, ssl_read_rets = quiet(1 := [- 0x7100]), ssl_write_rets = quiet(1 := [- 0x7100])\<rparr>"

text \<open>On connection 1 the library accepts 4 bytes and then returns 0.\<close>

definition w_write_stalls :: world where
  "w_write_stalls =
     \<lparr>net_status = 0, ssl_read_rets = quiet, ssl_write_rets = quiet(1 := [4, 0])\<rparr>"

text \<open>On connection 1 the library delivers, and accepts, 10 bytes at once.\<close>

definition w_write_all :: world where
  "w_write_all =
     \<lparr>net_status = 0, ssl_read_rets = quiet(1 := [10]), ssl_write_rets = quiet(1 := [10])\<rparr>"


subsection \<open>Reading the trace of a connect\<close>

text \<open>
  An address whose \<open>socket\<close> call succeeds, and one that connects. \<open>tried\<close> is
  the part of the address list the loop visits: up to and including the first
  address that connects.
\<close>

definition socket_ok :: "addr_try \<Rightarrow> bool" where
  "socket_ok c = (\<not> socket_ret c <s 0)"

definition connects :: "addr_try \<Rightarrow> bool" where
  "connects c = (socket_ok c \<and> connect_ret c = 0)"

definition tried :: "addr_try list \<Rightarrow> addr_try list" where
  "tried cs = takeWhile (\<lambda>c. \<not> connects c) cs @ take 1 (dropWhile (\<lambda>c. \<not> connects c) cs)"

text \<open>The \<open>connect\<close> calls of a trace, in order: descriptor and address.\<close>

fun connect_target_of :: "event \<Rightarrow> (int32 \<times> string) list" where
  "connect_target_of (Ev_connect fd a) = [(fd, a)]"
| "connect_target_of _ = []"

definition connect_targets :: "event list \<Rightarrow> (int32 \<times> string) list" where
  "connect_targets es = concat (map connect_target_of es)"

text \<open>
  Every \<open>connect\<close> call of the trace comes right after the \<open>setsockopt\<close> call
  that sets \<open>SO_SNDTIMEO\<close> to \<open>t\<close> seconds on the same descriptor; \<open>prev\<close> is the
  call before the trace.
\<close>

fun sndtimeo_before_connect :: "nat \<Rightarrow> event option \<Rightarrow> event list \<Rightarrow> bool" where
  "sndtimeo_before_connect t prev [] = True"
| "sndtimeo_before_connect t prev (e # es) =
     ((case e of
         Ev_connect fd a \<Rightarrow> prev = Some (Ev_setsockopt_SO_SNDTIMEO fd t)
       | _ \<Rightarrow> True)
      \<and> sndtimeo_before_connect t (Some e) es)"

text \<open>The calls made by the socket layer.\<close>

fun socket_layer :: "event \<Rightarrow> bool" where
  "socket_layer Ev_signal_SIGPIPE_IGN = True"
| "socket_layer (Ev_getaddrinfo h p f s pr) = True"
| "socket_layer (Ev_socket f s pr fd) = True"
| "socket_layer (Ev_setsockopt_SO_SNDTIMEO fd t) = True"
| "socket_layer (Ev_connect fd a) = True"
| "socket_layer (Ev_close fd) = True"
| "socket_layer Ev_freeaddrinfo = True"
| "socket_layer (Ev_net_connect p h po pr) = True"
| "socket_layer _ = False"

text \<open>The calls of \<open>_TLSConnectNetwork\<close> between the connect and the handshake loop.\<close>

definition conf_calls :: "itls_macros \<Rightarrow> uintptr_t \<Rightarrow> string \<Rightarrow> event list" where
  "conf_calls K p product_key =
     [Ev_ssl_config_defaults p,
      Ev_ssl_conf_max_version p (MBEDTLS_SSL_MAJOR_VERSION_3 K) (MBEDTLS_SSL_MINOR_VERSION_3 K),
      Ev_ssl_conf_min_version p (MBEDTLS_SSL_MAJOR_VERSION_3 K) (MBEDTLS_SSL_MINOR_VERSION_3 K),
      Ev_ssl_conf_rng p, Ev_ssl_conf_dbg p,
      Ev_ssl_conf_auth_extra p product_key (length product_key),
      Ev_ssl_setup p, Ev_ssl_set_bio p]"

text \<open>
  The conditions under which \<open>_TLSConnectNetwork\<close> gets to its handshake loop: the
  handle was allocated, and the connect and the three configuration calls whose
  value the code looks at returned 0.
\<close>

definition handshake_reached :: "itls_macros \<Rightarrow> establish_env \<Rightarrow> string \<Rightarrow> 16 word \<Rightarrow> bool" where
  "handshake_reached K env host port =
     (HAL_Malloc_ret env \<noteq> NULL
      \<and> fst (net_connect_step K env (HAL_Malloc_ret env) host (sprintf_u port)) = 0
      \<and> ssl_config_defaults_ret env = 0
      \<and> ssl_conf_auth_extra_ret env = 0
      \<and> ssl_setup_ret env = 0)"

text \<open>
  Two resolved addresses: for the first \<open>connect\<close> fails, for the second it
  succeeds on descriptor 4. In \<open>env_ok\<close> every configuration call succeeds and the
  handshake asks once for more input (\<open>WANT_READ\<close>) before it completes; in
  \<open>env_unknown_host\<close> name resolution fails; in \<open>env_refused\<close> only the first
  address is resolved.
\<close>

definition addr_v4 :: addr_try where
  "addr_v4 = \<lparr>ai_family = AF_INET, ai_socktype = SOCK_STREAM, ai_protocol = IPPROTO_TCP,
              ai_addr = ''192.0.2.1:443'', socket_ret = 3, connect_ret = - 1\<rparr>"

definition addr_v6 :: addr_try where
  "addr_v6 = \<lparr>ai_family = AF_INET6, ai_socktype = SOCK_STREAM, ai_protocol = IPPROTO_TCP,
              ai_addr = ''[2001:db8::1]:443'', socket_ret = 4, connect_ret = 0\<rparr>"

definition env_ok :: establish_env where
  "env_ok = \<lparr>PLATFORM_IS_LINUX = True, HAL_Malloc_ret = 1, getaddrinfo_ret = Some [addr_v4, addr_v6],
       net_connect_ret = 0, ssl_config_defaults_ret = 0, ssl_conf_auth_extra_ret = 0,
       ssl_setup_ret = 0, ssl_handshake_rets = [- 0x6900, 0]\<rparr>"

definition env_unknown_host :: establish_env where
  "env_unknown_host = env_ok\<lparr>getaddrinfo_ret := None\<rparr>"

definition env_refused :: establish_env where
  "env_refused = env_ok\<lparr>getaddrinfo_ret := Some [addr_v4]\<rparr>"

definition connect_ok_trace :: "event list" where
  "connect_ok_trace =
     [Ev_signal_SIGPIPE_IGN, Ev_getaddrinfo ''host'' ''443'' AF_UNSPEC SOCK_STREAM IPPROTO_TCP,
      Ev_socket AF_INET SOCK_STREAM IPPROTO_TCP 3, Ev_setsockopt_SO_SNDTIMEO 3 10,
      Ev_connect 3 ''192.0.2.1:443'', Ev_close 3,
      Ev_socket AF_INET6 SOCK_STREAM IPPROTO_TCP 4, Ev_setsockopt_SO_SNDTIMEO 4 10,
      Ev_connect 4 ''[2001:db8::1]:443'', Ev_freeaddrinfo]"

definition connect_refused_trace :: "event list" where
  "connect_refused_trace =
     [Ev_signal_SIGPIPE_IGN, Ev_getaddrinfo ''host'' ''443'' AF_UNSPEC SOCK_STREAM IPPROTO_TCP,
      Ev_socket AF_INET SOCK_STREAM IPPROTO_TCP 3, Ev_setsockopt_SO_SNDTIMEO 3 10,
      Ev_connect 3 ''192.0.2.1:443'', Ev_close 3, Ev_freeaddrinfo]"

definition establish_ok_trace :: "event list" where
  "establish_ok_trace =
     [Ev_HAL_Malloc 1, Ev_memset 1, Ev_ssl_init 1, Ev_net_init 1, Ev_ssl_config_init 1,
      Ev_signal_SIGPIPE_IGN, Ev_getaddrinfo ''host'' ''443'' AF_UNSPEC SOCK_STREAM IPPROTO_TCP,
      Ev_socket AF_INET SOCK_STREAM IPPROTO_TCP 3, Ev_setsockopt_SO_SNDTIMEO 3 10,
      Ev_connect 3 ''192.0.2.1:443'', Ev_close 3,
      Ev_socket AF_INET6 SOCK_STREAM IPPROTO_TCP 4, Ev_setsockopt_SO_SNDTIMEO 4 10,
      Ev_connect 4 ''[2001:db8::1]:443'', Ev_freeaddrinfo,
      Ev_ssl_config_defaults 1, Ev_ssl_conf_max_version 1 3 3, Ev_ssl_conf_min_version 1 3 3,
      Ev_ssl_conf_rng 1, Ev_ssl_conf_dbg 1, Ev_ssl_conf_auth_extra 1 ''pk'' 2,
      Ev_ssl_setup 1, Ev_ssl_set_bio 1]"

definition connect_failed_trace :: "event list" where
  "connect_failed_trace =
     [Ev_HAL_Malloc 1, Ev_memset 1, Ev_ssl_init 1, Ev_net_init 1, Ev_ssl_config_init 1,
      Ev_signal_SIGPIPE_IGN, Ev_getaddrinfo ''host'' ''443'' AF_UNSPEC SOCK_STREAM IPPROTO_TCP,
      Ev_HAL_Free 1]"

text \<open>
  An address for which \<open>socket\<close> fails, and an establish that resolves two
  addresses: the \<open>connect\<close> to the first fails and no socket can be created for
  the second.
\<close>

definition addr_no_socket :: addr_try where
  "addr_no_socket = \<lparr>ai_family = AF_INET6, ai_socktype = SOCK_STREAM, ai_protocol = IPPROTO_TCP,
              ai_addr = ''[2001:db8::1]:443'', socket_ret = - 1, connect_ret = 0\<rparr>"

definition env_no_socket :: establish_env where
  "env_no_socket = env_ok\<lparr>getaddrinfo_ret := Some [addr_v4, addr_no_socket]\<rparr>"

definition connect_no_socket_trace :: "event list" where
  "connect_no_socket_trace =
     [Ev_signal_SIGPIPE_IGN, Ev_getaddrinfo ''host'' ''443'' AF_UNSPEC SOCK_STREAM IPPROTO_TCP,
      Ev_socket AF_INET SOCK_STREAM IPPROTO_TCP 3, Ev_setsockopt_SO_SNDTIMEO 3 10,
      Ev_connect 3 ''192.0.2.1:443'', Ev_close 3,
      Ev_socket AF_INET6 SOCK_STREAM IPPROTO_TCP (- 1), Ev_freeaddrinfo]"

section \<open>Properties\<close>

subsection \<open>Signed and unsigned readings of a 32-bit word\<close>

lemma sint_cases32:
  fixes w :: "32 word"
  shows "sint w = uint w \<or> sint w = uint w - 4294967296"
proof -
  have "sint w = signed_take_bit 31 (uint w)" by (simp add: sint_uint)
  also have "\<dots> = take_bit 32 (uint w) - 2 ^ 32 * of_bool (bit (uint w) 31)"
    by (simp add: signed_take_bit_eq_take_bit_minus)
  also have "take_bit 32 (uint w) = uint w"
    using take_bit_int_eq_self [of "uint w" 32] uint_lt2p [of w] by simp
  finally show ?thesis by (cases "bit (uint w) 31") simp_all
qed

lemma sint_nonneg_uint:
  fixes w :: "32 word"
  assumes "0 \<le> sint w" shows "sint w = uint w"
  using assms sint_cases32 [of w] uint_lt2p [of w] by auto

lemma sint_nonneg_bound:
  fixes w :: "32 word"
  assumes "0 \<le> sint w" shows "uint w < 2147483648"
proof -
  have "sint w < 2147483648" using sint_lt [of w] by simp
  then show "uint w < 2147483648"  using sint_nonneg_uint[OF assms] by simp
qed

lemma uint_small_sint:
  fixes w :: "32 word"
  assumes "uint w < 2147483648" shows "sint w = uint w"
  using assms sint_cases32 [of w] sint_ge [of w] by auto

lemma le_len_sint:
  fixes x len :: "32 word"
  assumes "0 \<le>s len" "x \<le> len"
  shows "sint x = uint x"
proof -
  have "uint len < 2147483648" using assms(1) sint_nonneg_bound [of len] by (simp add: word_sle_eq)
  moreover have "uint x \<le> uint len" using assms(2) by (simp add: word_le_def)
  ultimately show ?thesis using uint_small_sint [of x] by simp
qed

lemma io_step:
  fixes n len ret :: "32 word"
  assumes "0 \<le>s len" "n < len" "0 <s ret" "sint ret \<le> uint (len - n)"
  shows "n + ret \<le> len" "uint (n + ret) = uint n + sint ret" "n + ret \<noteq> 0" "0 < sint ret"
proof -
  have a: "uint (len - n) = uint len - uint n"
    using assms(2) by uint_arith
  show r: "0 < sint ret" using assms(3) by (simp add: word_sless_alt)
  then have b: "sint ret = uint ret" using sint_nonneg_uint [of ret] by simp
  have l: "uint len < 2147483648" using assms(1) sint_nonneg_bound [of len] by (simp add: word_sle_eq)
  have c: "uint n + uint ret \<le> uint len" using assms(4) a b by simp
  then have d: "uint (n + ret) = uint n + uint ret"
    using l by (simp add: uint_add_lem [THEN iffD1])
  show "uint (n + ret) = uint n + sint ret" using d b by simp
  show "n + ret \<le> len" using c d by (simp add: word_le_def)
  have "0 < uint n + uint ret" using r b uint_ge_0 [of n] by linarith
  then have "uint (n + ret) \<noteq> 0" using d by simp
  then show "n + ret \<noteq> 0" by auto
qed

subsection \<open>The read loop against the table\<close>

text \<open>
  The invariant of the loop: \<open>readLen\<close> is the number of bytes the calls so far
  delivered and does not exceed \<open>len\<close>; \<open>net_status\<close> still has its value at
  entry while nothing was read, and is 0 once something was.
\<close>

lemma lib_rets_snoc_read [simp]:
  "lib_rets (es @ [Ev_ssl_read p off sz ret]) = lib_rets es @ [ret]"
  by (simp add: lib_rets_def)

lemma last_ret_snoc_read [simp]:
  "last_ret (es @ [Ev_ssl_read p off sz ret]) = Some ret"
  by (simp add: last_ret_def)

lemma bytes_read_snoc [simp]:
  "bytes_read (es @ [Ev_ssl_read p off sz ret]) = bytes_read es + (if 0 <s ret then sint ret else 0)"
  by (simp add: bytes_read_def)

lemma read_loop_done:
  assumes len: "0 \<le>s len"
    and le: "readLen \<le> len"
    and bytes: "uint readLen = bytes_read es"
    and hist: "if readLen = 0 then lib_rets es = [] \<and> st = st0
               else lib_rets es \<noteq> [] \<and> 0 <s last (lib_rets es) \<and> st = 0"
  shows "sint (if 0 < readLen then readLen else st) = read_result_for K st0 (bytes_read es) (last_ret es)"
    and "st = read_status_for K st0 (bytes_read es) (last_ret es)"
proof -
  have s: "sint readLen = uint readLen" using le_len_sint [OF len le] .
  show "sint (if 0 < readLen then readLen else st) = read_result_for K st0 (bytes_read es) (last_ret es)"
  proof (cases "readLen = 0")
    case True
    then show ?thesis using hist by (simp add: read_result_for_def last_ret_def)
  next
    case False
    then have "0 < readLen" by (simp add: word_greater_zero_iff)
    then show ?thesis using False hist s bytes by (simp add: read_result_for_def last_ret_def)
  qed
  show "st = read_status_for K st0 (bytes_read es) (last_ret es)"
    using hist by (cases "readLen = 0") (simp_all add: read_status_for_def last_ret_def)
qed

lemma read_loop_refines:
  assumes len: "0 \<le>s len"
    and contract: "ssl_io_contract readLen len rs"
    and le: "readLen \<le> len"
    and bytes: "uint readLen = bytes_read es"
    and hist: "if readLen = 0 then lib_rets es = [] \<and> st = st0
               else lib_rets es \<noteq> [] \<and> 0 <s last (lib_rets es) \<and> st = 0"
    and run: "read_loop K p len st readLen es rs = Some (r, st', es', rest)"
  shows "sint r = read_result_for K st0 (bytes_read es') (last_ret es')
           \<and> st' = read_status_for K st0 (bytes_read es') (last_ret es')"
  using contract le bytes hist run
proof (induction rs arbitrary: readLen st es)
  case Nil
  have "\<not> readLen < len" using Nil(5) by (simp split: if_splits)
  then have "(r, st', es', rest) = (if 0 < readLen then readLen else st, st, es, [])"
    using Nil(5) by simp
  then show ?case using read_loop_done [OF len Nil(2) Nil(3) Nil(4), of K] by simp
next
  case (Cons ret rs)
  show ?case
  proof (cases "readLen < len")
    case False
    then have "(r, st', es', rest) = (if 0 < readLen then readLen else st, st, es, ret # rs)"
      using Cons(6) by simp
    then show ?thesis using read_loop_done [OF len Cons(3) Cons(4) Cons(5), of K] by simp
  next
    case True
    let ?es = "es @ [Ev_ssl_read p readLen (len - readLen) ret]"
    have c: "sint ret \<le> uint (len - readLen)" using Cons(2) True by simp
    have s: "sint readLen = uint readLen" using le_len_sint [OF len Cons(3)] .
    have st: "readLen \<noteq> 0 \<longrightarrow> st = 0" "readLen = 0 \<longrightarrow> st = st0" using Cons(5) by auto
    show ?thesis
    proof (cases "0 <s ret")
      case pos: True
      note step = io_step [OF len True pos c]
      have 1: "ssl_io_contract (readLen + ret) len rs" using Cons(2) True pos by simp
      have 2: "uint (readLen + ret) = bytes_read ?es" using step(2) Cons(4) pos by simp
      have 3: "if readLen + ret = 0 then lib_rets ?es = [] \<and> (0::int32) = st0
               else lib_rets ?es \<noteq> [] \<and> 0 <s last (lib_rets ?es) \<and> (0::int32) = 0"
        using step(3) pos by simp
      have 4: "read_loop K p len 0 (readLen + ret) ?es rs = Some (r, st', es', rest)"
        using Cons(6) True pos by (simp add: Let_def)
      from Cons.IH [OF 1 step(1) 2 3 4] show ?thesis .
    next
      case npos: False
      have z: "readLen = 0 \<longleftrightarrow> bytes_read es = 0" using Cons(4) by (auto simp: word_uint_eq_iff)
      have g: "0 < readLen \<longleftrightarrow> readLen \<noteq> 0" by (simp add: word_greater_zero_iff)
      have m2: "sint (- 2 :: int32) = - 2" "sint (- 1 :: int32) = - 1" "(0 :: int32) \<noteq> - 2" by simp_all
      show ?thesis
        using True npos st s Cons(4) Cons(6) z g m2
        by (auto simp: Let_def read_result_for_def read_status_for_def is_timeout_code_def split: if_splits)
    qed
  qed
qed

lemma read_loop_returns:
  assumes len: "0 \<le>s len"
    and contract: "ssl_io_contract readLen len rs"
    and le: "readLen \<le> len"
    and fuel: "(\<exists>ret \<in> set rs. \<not> 0 <s ret) \<or> uint len - uint readLen \<le> int (length rs)"
  shows "read_loop K p len st readLen es rs \<noteq> None"
  using contract le fuel
proof (induction rs arbitrary: readLen st es)
  case Nil
  then have "\<not> readLen < len" by (simp add: word_less_def word_le_def)
  then show ?case by simp
next
  case (Cons ret rs)
  show ?case
  proof (cases "readLen < len \<and> 0 <s ret")
    case False
    then show ?thesis by (auto simp: Let_def)
  next
    case True
    then have c: "sint ret \<le> uint (len - readLen)" using Cons(2) by simp
    note step = io_step [OF len conjunct1 [OF True] conjunct2 [OF True] c]
    have 1: "ssl_io_contract (readLen + ret) len rs" using Cons(2) True by simp
    have 4: "(\<exists>ret \<in> set rs. \<not> 0 <s ret) \<or> uint len - uint (readLen + ret) \<le> int (length rs)"
      using Cons(4) True step(2) step(4) by auto
    from Cons.IH [OF 1 step(1) 4] show ?thesis using True by (simp add: Let_def)
  qed
qed

subsection \<open>Read: the result of a call\<close>

lemma read_loop_consumes_answers:
  assumes len: "0 \<le>s len"
    and contract: "ssl_io_contract n len rs"
    and le: "n \<le> len"
    and run: "read_loop K p len st n es rs = Some (r, st', es', rest)"
  shows "es' = es @ read_calls p len n (answers_used (uint len - uint n) rs)
         \<and> rest = drop (length (answers_used (uint len - uint n) rs)) rs"
  using contract le run
proof (induction rs arbitrary: n st es)
  case Nil
  then show ?case by (auto split: if_splits)
next
  case (Cons ret rs)
  have k: "n < len \<longleftrightarrow> 0 < uint len - uint n" by (simp add: word_less_def)
  show ?case
  proof (cases "n < len \<and> 0 <s ret")
    case False
    then show ?thesis using Cons(4) k by (auto simp: Let_def split: if_splits)
  next
    case True
    then have c: "sint ret \<le> uint (len - n)" using Cons(2) by simp
    note step = io_step [OF len conjunct1 [OF True] conjunct2 [OF True] c]
    have 1: "ssl_io_contract (n + ret) len rs" using Cons(2) True by simp
    have 2: "read_loop K p len 0 (n + ret) (es @ [Ev_ssl_read p n (len - n) ret]) rs
               = Some (r, st', es', rest)"
      using Cons(4) True by (simp add: Let_def)
    have 3: "uint len - uint (n + ret) = uint len - uint n - sint ret" using step(2) by simp
    from Cons.IH [OF 1 step(1) 2] show ?thesis using True k 3 by simp
  qed
qed

lemma lib_rets_read_calls [simp]: "lib_rets (read_calls p len n rs) = rs"
  by (induction rs arbitrary: n) (simp_all add: lib_rets_def)

lemma sint_nonneg_len:
  fixes len :: int32
  assumes "0 \<le>s len" shows "uint len = sint len"
  using assms sint_nonneg_uint [of len] by (simp add: word_sle_eq)

text \<open>
  Claim C1, as amended. For a read of \<open>len \<ge> 0\<close> bytes on a library that returns at
  most the bytes it is asked for, and that answers every call the loop makes (some
  coming return value is not positive, or there are at least \<open>len\<close> of them), the
  call returns. Its calls are the configuration of the read timeout and then one
  \<open>mbedtls_ssl_read\<close> for each return value the loop consumes (\<open>answers_used\<close>),
  and these values are taken from the connection. Its result and the \<open>net_status\<close>
  it leaves are the ones of the table \<open>read_result_for\<close> / \<open>read_status_for\<close>
  at the bytes these calls delivered and the last of these values: bytes read when
  the buffer fills, bytes read (0 without data) on a timeout code, -1 on another
  error; a peer close notify gives -2 only if the call read nothing, and the
  positive byte count if bytes were read before it in the same call.
\<close>

theorem HAL_iTLS_Read_outcome:
  assumes "0 \<le>s len"
    and "ssl_io_contract 0 len (ssl_read_rets w handle)"
    and "(\<exists>ret \<in> set (ssl_read_rets w handle). \<not> 0 <s ret)
         \<or> unat len \<le> length (ssl_read_rets w handle)"
  shows "\<exists>r es.
           es = Ev_ssl_conf_read_timeout handle timeout_ms
                  # read_calls handle len 0 (answers_used (sint len) (ssl_read_rets w handle))
         \<and> sint r = read_result_for K (net_status w) (bytes_read es) (last_ret es)
         \<and> HAL_iTLS_Read K handle len timeout_ms w
             = Some (r, es,
                 w\<lparr>net_status := read_status_for K (net_status w) (bytes_read es) (last_ret es),
                   ssl_read_rets := (ssl_read_rets w)
                     (handle := drop (length (answers_used (sint len) (ssl_read_rets w handle)))
                                  (ssl_read_rets w handle))\<rparr>)"
proof -
  let ?es0 = "[Ev_ssl_conf_read_timeout handle timeout_ms]"
  let ?rets = "ssl_read_rets w handle"
  have fuel: "(\<exists>ret \<in> set ?rets. \<not> 0 <s ret)
       \<or> uint len - uint (0::uint32) \<le> int (length ?rets)"
  proof (cases "\<exists>ret \<in> set ?rets. \<not> 0 <s ret")
    case True
    then show ?thesis by simp
  next
    case False
    then have "int (unat len) \<le> int (length ?rets)" using assms(3) by linarith
    then show ?thesis by simp
  qed
  have "read_loop K handle len (net_status w) 0 ?es0 ?rets \<noteq> None"
    using read_loop_returns [OF assms(1) assms(2) _ fuel] by simp
  then obtain r st' es rest where
    run: "read_loop K handle len (net_status w) 0 ?es0 ?rets = Some (r, st', es, rest)"
    by auto
  have b: "uint (0::uint32) = bytes_read ?es0" by (simp add: bytes_read_def)
  have h: "if (0::uint32) = 0 then lib_rets ?es0 = [] \<and> net_status w = net_status w
           else lib_rets ?es0 \<noteq> [] \<and> 0 <s last (lib_rets ?es0) \<and> net_status w = 0"
    by (simp add: lib_rets_def)
  from read_loop_refines [OF assms(1) assms(2) _ b h run]
  have tab: "sint r = read_result_for K (net_status w) (bytes_read es) (last_ret es)"
    "st' = read_status_for K (net_status w) (bytes_read es) (last_ret es)" by simp_all
  from read_loop_consumes_answers [OF assms(1) assms(2) _ run]
  have tie: "es = Ev_ssl_conf_read_timeout handle timeout_ms
                  # read_calls handle len 0 (answers_used (sint len) ?rets)"
    "rest = drop (length (answers_used (sint len) ?rets)) ?rets"
    using sint_nonneg_len [OF assms(1)] by simp_all
  have "HAL_iTLS_Read K handle len timeout_ms w
      = Some (r, es, w\<lparr>net_status := st', ssl_read_rets := (ssl_read_rets w)(handle := rest)\<rparr>)"
    using run by (simp add: HAL_iTLS_Read_def network_ssl_read_def)
  then show ?thesis using tab tie by blast
qed

lemma read_result_value:
  fixes r v :: int32
  assumes "sint r = x" and "sint v = x"
  shows "r = v"
proof -
  have "sint r = sint v" using assms by simp
  then show ?thesis by (rule signed_word_eqI)
qed

theorem HAL_iTLS_Read_outcome_witness:
  "0 \<le>s (10 :: int32)
   \<and> ssl_io_contract 0 10 (ssl_read_rets w_close_after_4 1)
   \<and> ((\<exists>ret \<in> set (ssl_read_rets w_close_after_4 1). \<not> 0 <s ret)
        \<or> unat (10 :: int32) \<le> length (ssl_read_rets w_close_after_4 1))
   \<and> HAL_iTLS_Read mbedtls_macros 1 10 1000 w_close_after_4
       = Some (4, [Ev_ssl_conf_read_timeout 1 1000, Ev_ssl_read 1 0 10 4,
                   Ev_ssl_read 1 4 6 (- 0x7880)],
               w_close_after_4\<lparr>net_status := - 2,
                 ssl_read_rets := (ssl_read_rets w_close_after_4)(1 := [])\<rparr>)
   \<and> ssl_io_contract 0 10 (ssl_read_rets w_bad_input 1)
   \<and> ((\<exists>ret \<in> set (ssl_read_rets w_bad_input 1). \<not> 0 <s ret)
        \<or> unat (10 :: int32) \<le> length (ssl_read_rets w_bad_input 1))
   \<and> HAL_iTLS_Read mbedtls_macros 1 10 1000 w_bad_input
       = Some (- 1, [Ev_ssl_conf_read_timeout 1 1000, Ev_ssl_read 1 0 10 (- 0x7100)],
               w_bad_input\<lparr>net_status := - 1,
                 ssl_read_rets := (ssl_read_rets w_bad_input)(1 := [])\<rparr>)"
proof -
  let ?es = "[Ev_ssl_conf_read_timeout 1 1000, Ev_ssl_read 1 0 10 4, Ev_ssl_read 1 4 6 (- 0x7880)]"
  have h1: "0 \<le>s (10 :: int32)" by (simp add: word_sle_eq)
  have h2: "ssl_io_contract 0 10 (ssl_read_rets w_close_after_4 1)"
    by (simp add: w_close_after_4_def word_sless_alt)
  have h3: "(\<exists>ret \<in> set (ssl_read_rets w_close_after_4 1). \<not> 0 <s ret)
        \<or> unat (10 :: int32) \<le> length (ssl_read_rets w_close_after_4 1)"
    by (simp add: w_close_after_4_def word_sless_alt)
  have used: "answers_used (sint (10 :: int32)) (ssl_read_rets w_close_after_4 1) = [4, - 0x7880]"
    by (simp add: w_close_after_4_def word_sless_alt)
  have calls: "Ev_ssl_conf_read_timeout 1 1000 # read_calls 1 10 0 [4, - 0x7880] = ?es"
    by simp
  have tab: "read_result_for mbedtls_macros (net_status w_close_after_4) (bytes_read ?es) (last_ret ?es) = 4"
    "read_status_for mbedtls_macros (net_status w_close_after_4) (bytes_read ?es) (last_ret ?es) = - 2"
    by (simp_all add: read_result_for_def read_status_for_def bytes_read_def last_ret_def
          lib_rets_def mbedtls_macros_def word_sless_alt)
  have rest: "drop (length [4, - 0x7880 :: int32]) (ssl_read_rets w_close_after_4 1) = []"
    by (simp add: w_close_after_4_def)
  note c = HAL_iTLS_Read_outcome [OF h1 h2 h3, where K = mbedtls_macros and timeout_ms = 1000,
      unfolded used calls rest]
  then obtain r es where es: "es = ?es"
    and r0: "sint r = read_result_for mbedtls_macros (net_status w_close_after_4)
               (bytes_read es) (last_ret es)"
    and run0: "HAL_iTLS_Read mbedtls_macros 1 10 1000 w_close_after_4
       = Some (r, es, w_close_after_4\<lparr>net_status :=
                   read_status_for mbedtls_macros (net_status w_close_after_4)
                     (bytes_read es) (last_ret es),
                 ssl_read_rets := (ssl_read_rets w_close_after_4)(1 := [])\<rparr>)"
    by blast
  have r: "sint r = 4" using r0 es tab(1) by simp
  have run: "HAL_iTLS_Read mbedtls_macros 1 10 1000 w_close_after_4
       = Some (r, ?es, w_close_after_4\<lparr>net_status := - 2,
                 ssl_read_rets := (ssl_read_rets w_close_after_4)(1 := [])\<rparr>)"
    using run0 es tab(2) by simp
  have "r = 4" using r by (rule read_result_value) simp
  then have first: "HAL_iTLS_Read mbedtls_macros 1 10 1000 w_close_after_4
       = Some (4, ?es, w_close_after_4\<lparr>net_status := - 2,
                 ssl_read_rets := (ssl_read_rets w_close_after_4)(1 := [])\<rparr>)"
    using run by simp
  let ?fs = "[Ev_ssl_conf_read_timeout 1 1000, Ev_ssl_read 1 0 10 (- 0x7100)]"
  have k2: "ssl_io_contract 0 10 (ssl_read_rets w_bad_input 1)"
    by (simp add: w_bad_input_def word_sless_alt)
  have k3: "(\<exists>ret \<in> set (ssl_read_rets w_bad_input 1). \<not> 0 <s ret)
        \<or> unat (10 :: int32) \<le> length (ssl_read_rets w_bad_input 1)"
    by (simp add: w_bad_input_def word_sless_alt)
  have used': "answers_used (sint (10 :: int32)) (ssl_read_rets w_bad_input 1) = [- 0x7100]"
    by (simp add: w_bad_input_def word_sless_alt)
  have calls': "Ev_ssl_conf_read_timeout 1 1000 # read_calls 1 10 0 [- 0x7100] = ?fs"
    by simp
  have tab': "read_result_for mbedtls_macros (net_status w_bad_input) (bytes_read ?fs) (last_ret ?fs) = - 1"
    "read_status_for mbedtls_macros (net_status w_bad_input) (bytes_read ?fs) (last_ret ?fs) = - 1"
    by (simp_all add: read_result_for_def read_status_for_def bytes_read_def last_ret_def
          lib_rets_def mbedtls_macros_def is_timeout_code_def word_sless_alt)
  have rest': "drop (length [- 0x7100 :: int32]) (ssl_read_rets w_bad_input 1) = []"
    by (simp add: w_bad_input_def)
  note d = HAL_iTLS_Read_outcome [OF h1 k2 k3, where K = mbedtls_macros and timeout_ms = 1000,
      unfolded used' calls' rest']
  then obtain q fs where fs: "fs = ?fs"
    and q0: "sint q = read_result_for mbedtls_macros (net_status w_bad_input)
               (bytes_read fs) (last_ret fs)"
    and bad0: "HAL_iTLS_Read mbedtls_macros 1 10 1000 w_bad_input
       = Some (q, fs, w_bad_input\<lparr>net_status :=
                   read_status_for mbedtls_macros (net_status w_bad_input)
                     (bytes_read fs) (last_ret fs),
                 ssl_read_rets := (ssl_read_rets w_bad_input)(1 := [])\<rparr>)"
    by blast
  have "sint q = - 1" using q0 fs tab'(1) by simp
  then have "q = - 1" by (rule read_result_value) simp
  then have second: "HAL_iTLS_Read mbedtls_macros 1 10 1000 w_bad_input
       = Some (- 1, ?fs, w_bad_input\<lparr>net_status := - 1,
                 ssl_read_rets := (ssl_read_rets w_bad_input)(1 := [])\<rparr>)"
    using bad0 fs tab'(2) by simp
  show ?thesis using h1 h2 h3 first k2 k3 second by (intro conjI)
qed

text \<open>
  The claim as first stated gives a peer close the result -2 also when bytes were
  read before it in the same call. On connection 1 the library delivers 4 of the 10
  bytes asked for and then the close notify: the call returns 4.
\<close>

theorem HAL_iTLS_Read_peer_close_counterexample:
  "HAL_iTLS_Read mbedtls_macros 1 10 1000 w_close_after_4
     = Some (4, [Ev_ssl_conf_read_timeout 1 1000, Ev_ssl_read 1 0 10 4,
                 Ev_ssl_read 1 4 6 (MBEDTLS_ERR_SSL_PEER_CLOSE_NOTIFY mbedtls_macros)],
             w_close_after_4 \<lparr>net_status := - 2, ssl_read_rets := (ssl_read_rets w_close_after_4)(1 := [])\<rparr>)
   \<and> (4 :: int32) \<noteq> - 2"
  by (simp add: HAL_iTLS_Read_def network_ssl_read_def w_close_after_4_def mbedtls_macros_def
        Let_def word_sless_alt)

subsection \<open>Write: the loop\<close>

lemma bytes_written_snoc [simp]:
  "bytes_written (es @ [Ev_ssl_write p off sz ret]) = bytes_written es + (if 0 <s ret then sint ret else 0)"
  by (simp add: bytes_written_def)

lemma write_loop_result:
  assumes len: "0 \<le>s len"
    and contract: "ssl_io_contract n len rs"
    and le: "n \<le> len"
    and run: "write_loop p len n es rs = Some (r, es', rest)"
  shows "r = len \<or> r = 0 \<or> r = - 1"
  using contract le run
proof (induction rs arbitrary: n es)
  case Nil
  then show ?case by (auto split: if_splits)
next
  case (Cons ret rs)
  show ?case
  proof (cases "n < len \<and> 0 <s ret")
    case False
    then show ?thesis using Cons(3) Cons(4) by (auto simp: Let_def split: if_splits)
  next
    case True
    then have c: "sint ret \<le> uint (len - n)" using Cons(2) by simp
    note step = io_step [OF len conjunct1 [OF True] conjunct2 [OF True] c]
    have 1: "ssl_io_contract (n + ret) len rs" using Cons(2) True by simp
    have 2: "write_loop p len (n + ret) (es @ [Ev_ssl_write p n (len - n) ret]) rs = Some (r, es', rest)"
      using Cons(4) True by (simp add: Let_def)
    from Cons.IH [OF 1 step(1) 2] show ?thesis .
  qed
qed

text \<open>
  Claim C2, at the failing input. The library accepts 4 of the 10 bytes and then
  returns 0: the call returns 0, not the 4 bytes that were written.
\<close>

theorem HAL_iTLS_Write_partial_timeout:
  "HAL_iTLS_Write 1 10 1000 w_write_stalls
     = Some (0, [Ev_ssl_write 1 0 10 4, Ev_ssl_write 1 4 6 0],
             w_write_stalls\<lparr>ssl_write_rets := (ssl_write_rets w_write_stalls)(1 := [])\<rparr>)
   \<and> bytes_written [Ev_ssl_write 1 0 10 4, Ev_ssl_write 1 4 6 0] = 4"
  by (simp add: HAL_iTLS_Write_def network_ssl_write_def w_write_stalls_def Let_def word_sless_alt
        bytes_written_def)

subsection \<open>The negative results of read and write\<close>

lemma read_result_for_negative:
  assumes "net_status_ok st0" "0 \<le> n" "read_result_for K st0 n l < 0"
  shows "read_result_for K st0 n l = - 1 \<or> read_result_for K st0 n l = - 2"
  using assms
  by (auto simp: read_result_for_def net_status_ok_def split: option.splits if_splits)

lemma read_status_for_ok:
  assumes "net_status_ok st0"
  shows "net_status_ok (read_status_for K st0 n l)"
  using assms
  by (auto simp: read_status_for_def net_status_ok_def split: option.splits)

lemma read_bytes_of_nonneg: "0 \<le> read_bytes_of e"
  by (cases e) (auto simp: word_sless_alt)

lemma bytes_read_nonneg: "0 \<le> bytes_read es"
  unfolding bytes_read_def by (induction es) (simp_all add: read_bytes_of_nonneg)

lemma sint_minus32:
  fixes r :: int32
  shows "sint r = - 1 \<longleftrightarrow> r = - 1" "sint r = - 2 \<longleftrightarrow> r = - 2"
proof -
  have "sint r = sint (- 1 :: int32) \<longleftrightarrow> r = - 1" by (auto intro: signed_word_eqI)
  then show "sint r = - 1 \<longleftrightarrow> r = - 1" by simp
  have "sint r = sint (- 2 :: int32) \<longleftrightarrow> r = - 2" by (auto intro: signed_word_eqI)
  then show "sint r = - 2 \<longleftrightarrow> r = - 2" by simp
qed

lemma network_ssl_read_refines:
  assumes "0 \<le>s len"
    and "ssl_io_contract 0 len rs"
    and "network_ssl_read K p len t st0 rs = Some (r, st', es, rest)"
  shows "sint r = read_result_for K st0 (bytes_read es) (last_ret es)"
    and "st' = read_status_for K st0 (bytes_read es) (last_ret es)"
proof -
  let ?es0 = "[Ev_ssl_conf_read_timeout p t]"
  have b: "uint (0::uint32) = bytes_read ?es0" by (simp add: bytes_read_def)
  have h: "if (0::uint32) = 0 then lib_rets ?es0 = [] \<and> st0 = st0
           else lib_rets ?es0 \<noteq> [] \<and> 0 <s last (lib_rets ?es0) \<and> st0 = 0"
    by (simp add: lib_rets_def)
  have run: "read_loop K p len st0 0 ?es0 rs = Some (r, st', es, rest)"
    using assms(3) by (simp add: network_ssl_read_def)
  from read_loop_refines [OF assms(1) assms(2) _ b h run]
  show "sint r = read_result_for K st0 (bytes_read es) (last_ret es)"
    and "st' = read_status_for K st0 (bytes_read es) (last_ret es)" by simp_all
qed

lemma HAL_iTLS_Read_SomeD:
  assumes "HAL_iTLS_Read K h len t w = Some (r, es, w')"
  shows "\<exists>rest. network_ssl_read K h len t (net_status w) (ssl_read_rets w h) = Some (r, net_status w', es, rest)
           \<and> ssl_read_rets w' = (ssl_read_rets w)(h := rest)"
  using assms by (auto simp: HAL_iTLS_Read_def split: option.splits)

lemma HAL_iTLS_Write_SomeD:
  assumes "HAL_iTLS_Write h len t w = Some (r, es, w')"
  shows "\<exists>rest. write_loop h len 0 [] (ssl_write_rets w h) = Some (r, es, rest)
           \<and> w' = w\<lparr>ssl_write_rets := (ssl_write_rets w)(h := rest)\<rparr>"
  using assms by (auto simp: HAL_iTLS_Write_def network_ssl_write_def split: option.splits)

text \<open>
  Claim C3, as amended. With \<open>len \<ge> 0\<close> and a library that returns at most the
  bytes asked for, a negative result of read is -1 or -2 and a negative result of
  write is -1, whatever negative code the library returned; \<open>net_status\<close> stays
  one of 0, -1, -2. These values are the adapter's own: the library's code is not
  passed on.
\<close>

theorem error_values_local:
  assumes "0 \<le>s rlen" and "0 \<le>s wlen"
    and "net_status_ok (net_status w)"
    and "ssl_io_contract 0 rlen (ssl_read_rets w h)"
    and "ssl_io_contract 0 wlen (ssl_write_rets w h)"
    and "HAL_iTLS_Read K h rlen t w = Some (r, es, w')"
    and "HAL_iTLS_Write h wlen t w = Some (r2, es2, w2)"
  shows "(r <s 0 \<longrightarrow> r = - 1 \<or> r = - 2) \<and> net_status_ok (net_status w')
         \<and> (r2 <s 0 \<longrightarrow> r2 = - 1)"
proof -
  obtain rest where run: "network_ssl_read K h rlen t (net_status w) (ssl_read_rets w h)
      = Some (r, net_status w', es, rest)"
    using HAL_iTLS_Read_SomeD [OF assms(6)] by blast
  note ref = network_ssl_read_refines [OF assms(1) assms(4) run]
  have a: "r <s 0 \<longrightarrow> r = - 1 \<or> r = - 2"
    using read_result_for_negative [OF assms(3) bytes_read_nonneg, of K es "last_ret es"] ref(1)
    by (auto simp: word_sless_alt sint_minus32)
  have b: "net_status_ok (net_status w')" using ref(2) read_status_for_ok [OF assms(3)] by simp
  obtain rest2 where run2: "write_loop h wlen 0 [] (ssl_write_rets w h) = Some (r2, es2, rest2)"
    using HAL_iTLS_Write_SomeD [OF assms(7)] by blast
  have "r2 = wlen \<or> r2 = 0 \<or> r2 = - 1"
    using write_loop_result [OF assms(2) assms(5) _ run2] by simp
  then have c: "r2 <s 0 \<longrightarrow> r2 = - 1" using assms(2) by (auto simp: word_sless_alt word_sle_eq)
  show ?thesis using a b c by blast
qed

theorem error_values_local_witness:
  "0 \<le>s (10 :: int32) \<and> 0 \<le>s (10 :: int32)
   \<and> net_status_ok (net_status w_bad_input)
   \<and> ssl_io_contract 0 10 (ssl_read_rets w_bad_input 1)
   \<and> ssl_io_contract 0 10 (ssl_write_rets w_bad_input 1)
   \<and> HAL_iTLS_Read mbedtls_macros 1 10 1000 w_bad_input
       = Some (- 1, [Ev_ssl_conf_read_timeout 1 1000, Ev_ssl_read 1 0 10 (- 0x7100)],
               w_bad_input\<lparr>net_status := - 1, ssl_read_rets := (ssl_read_rets w_bad_input)(1 := [])\<rparr>)
   \<and> HAL_iTLS_Write 1 10 1000 w_bad_input
       = Some (- 1, [Ev_ssl_write 1 0 10 (- 0x7100)],
               w_bad_input\<lparr>ssl_write_rets := (ssl_write_rets w_bad_input)(1 := [])\<rparr>)
   \<and> ((- 1 :: int32) <s 0 \<and> ((- 1 :: int32) = - 1 \<or> (- 1 :: int32) = - 2))
   \<and> net_status_ok (net_status (w_bad_input\<lparr>net_status := - 1, ssl_read_rets := (ssl_read_rets w_bad_input)(1 := [])\<rparr>))"
proof -
  have h1: "0 \<le>s (10 :: int32)" by (simp add: word_sle_eq)
  have h3: "net_status_ok (net_status w_bad_input)" by (simp add: w_bad_input_def net_status_ok_def)
  have h4: "ssl_io_contract 0 10 (ssl_read_rets w_bad_input 1)"
    by (simp add: w_bad_input_def word_sless_alt)
  have h5: "ssl_io_contract 0 10 (ssl_write_rets w_bad_input 1)"
    by (simp add: w_bad_input_def word_sless_alt)
  have h6: "HAL_iTLS_Read mbedtls_macros 1 10 1000 w_bad_input
       = Some (- 1, [Ev_ssl_conf_read_timeout 1 1000, Ev_ssl_read 1 0 10 (- 0x7100)],
               w_bad_input\<lparr>net_status := - 1, ssl_read_rets := (ssl_read_rets w_bad_input)(1 := [])\<rparr>)"
    by (simp add: HAL_iTLS_Read_def network_ssl_read_def w_bad_input_def mbedtls_macros_def
          Let_def word_sless_alt)
  have h7: "HAL_iTLS_Write 1 10 1000 w_bad_input
       = Some (- 1, [Ev_ssl_write 1 0 10 (- 0x7100)],
               w_bad_input\<lparr>ssl_write_rets := (ssl_write_rets w_bad_input)(1 := [])\<rparr>)"
    by (simp add: HAL_iTLS_Write_def network_ssl_write_def w_bad_input_def Let_def word_sless_alt)
  have neg: "(- 1 :: int32) <s 0" by (simp add: word_sless_alt)
  note c = error_values_local [OF h1 h1 h3 h4 h5 h6 h7]
  from h1 h3 h4 h5 h6 h7 neg c show ?thesis by blast
qed

text \<open>
  The claim as first stated has every negative result forwarded from the library.
  The library returns -0x7100 to the read; the call returns -1, a value the
  library did not return.
\<close>

theorem error_value_not_forwarded_counterexample:
  "HAL_iTLS_Read mbedtls_macros 1 10 1000 w_bad_input
       = Some (- 1, [Ev_ssl_conf_read_timeout 1 1000, Ev_ssl_read 1 0 10 (- 0x7100)],
               w_bad_input\<lparr>net_status := - 1, ssl_read_rets := (ssl_read_rets w_bad_input)(1 := [])\<rparr>)
   \<and> (- 1 :: int32) <s 0
   \<and> lib_rets [Ev_ssl_conf_read_timeout 1 1000, Ev_ssl_read 1 0 10 (- 0x7100)] = [- 0x7100]
   \<and> (- 1 :: int32) \<noteq> - 0x7100"
  by (simp add: HAL_iTLS_Read_def network_ssl_read_def w_bad_input_def mbedtls_macros_def
          Let_def word_sless_alt lib_rets_def)

subsection \<open>The use of \<open>timeout_ms\<close>\<close>

lemma timeouts_applied_append [simp]:
  "timeouts_applied (xs @ ys) = timeouts_applied xs @ timeouts_applied ys"
  by (simp add: timeouts_applied_def)

lemma read_loop_trace:
  assumes "read_loop K p len st n es rs = Some (r, st', es', rest)"
  shows "\<exists>tail. es' = es @ tail \<and> timeouts_applied tail = []"
  using assms
proof (induction rs arbitrary: st n es)
  case Nil
  then show ?case by (auto simp: timeouts_applied_def split: if_splits)
next
  case (Cons ret rs)
  show ?case
  proof (cases "n < len \<and> 0 <s ret")
    case False
    then show ?thesis using Cons(2)
      by (auto simp: Let_def timeouts_applied_def split: if_splits)
  next
    case True
    then have "read_loop K p len 0 (n + ret) (es @ [Ev_ssl_read p n (len - n) ret]) rs
                 = Some (r, st', es', rest)"
      using Cons(2) by (simp add: Let_def)
    from Cons.IH [OF this] obtain tail where
      "es' = (es @ [Ev_ssl_read p n (len - n) ret]) @ tail" "timeouts_applied tail = []" by blast
    then have "es' = es @ (Ev_ssl_read p n (len - n) ret # tail)
        \<and> timeouts_applied (Ev_ssl_read p n (len - n) ret # tail) = []"
      by (simp add: timeouts_applied_def)
    then show ?thesis by blast
  qed
qed

lemma write_loop_trace:
  assumes "write_loop p len n es rs = Some (r, es', rest)"
  shows "\<exists>tail. es' = es @ tail \<and> timeouts_applied tail = []"
  using assms
proof (induction rs arbitrary: n es)
  case Nil
  then show ?case by (auto simp: timeouts_applied_def split: if_splits)
next
  case (Cons ret rs)
  show ?case
  proof (cases "n < len \<and> 0 <s ret")
    case False
    then show ?thesis using Cons(2)
      by (auto simp: Let_def timeouts_applied_def split: if_splits)
  next
    case True
    then have "write_loop p len (n + ret) (es @ [Ev_ssl_write p n (len - n) ret]) rs
                 = Some (r, es', rest)"
      using Cons(2) by (simp add: Let_def)
    from Cons.IH [OF this] obtain tail where
      "es' = (es @ [Ev_ssl_write p n (len - n) ret]) @ tail" "timeouts_applied tail = []" by blast
    then have "es' = es @ (Ev_ssl_write p n (len - n) ret # tail)
        \<and> timeouts_applied (Ev_ssl_write p n (len - n) ret # tail) = []"
      by (simp add: timeouts_applied_def)
    then show ?thesis by blast
  qed
qed

text \<open>
  Claim C4, as amended. A read configures the caller's \<open>timeout_ms\<close> as the
  library's read timeout, once, before its first \<open>mbedtls_ssl_read\<close>. A write
  configures no timeout, and its result, its calls and the state it leaves are the
  same for every value of \<open>timeout_ms\<close>.
\<close>

theorem timeout_ms_read_only:
  assumes "HAL_iTLS_Read K h rlen t w = Some (r, es, w')"
    and "HAL_iTLS_Write h wlen t w = Some (r2, es2, w2)"
  shows "(\<exists>tail. es = Ev_ssl_conf_read_timeout h t # tail \<and> timeouts_applied tail = [])
         \<and> timeouts_applied es = [t]
         \<and> timeouts_applied es2 = []
         \<and> HAL_iTLS_Write h wlen t' w = Some (r2, es2, w2)"
proof -
  obtain rest where "network_ssl_read K h rlen t (net_status w) (ssl_read_rets w h)
      = Some (r, net_status w', es, rest)"
    using HAL_iTLS_Read_SomeD [OF assms(1)] by blast
  then have "read_loop K h rlen (net_status w) 0 [Ev_ssl_conf_read_timeout h t] (ssl_read_rets w h)
      = Some (r, net_status w', es, rest)" by (simp add: network_ssl_read_def)
  from read_loop_trace [OF this] obtain tail where
    tail: "es = [Ev_ssl_conf_read_timeout h t] @ tail" "timeouts_applied tail = []" by blast
  then have a: "\<exists>tail. es = Ev_ssl_conf_read_timeout h t # tail \<and> timeouts_applied tail = []"
    by simp
  have b: "timeouts_applied es = [t]" using tail by (simp add: timeouts_applied_def)
  obtain rest2 where "write_loop h wlen 0 [] (ssl_write_rets w h) = Some (r2, es2, rest2)"
    using HAL_iTLS_Write_SomeD [OF assms(2)] by blast
  from write_loop_trace [OF this] have c: "timeouts_applied es2 = []" by auto
  have d: "HAL_iTLS_Write h wlen t' w = Some (r2, es2, w2)"
    using assms(2) by (simp add: HAL_iTLS_Write_def network_ssl_write_def)
  show ?thesis using a b c d by blast
qed

theorem timeout_ms_read_only_witness:
  "HAL_iTLS_Read mbedtls_macros 1 10 5000 w_write_all
     = Some (10, [Ev_ssl_conf_read_timeout 1 5000, Ev_ssl_read 1 0 10 10],
             w_write_all\<lparr>net_status := 0, ssl_read_rets := (ssl_read_rets w_write_all)(1 := [])\<rparr>)
   \<and> HAL_iTLS_Write 1 10 5000 w_write_all
     = Some (10, [Ev_ssl_write 1 0 10 10],
             w_write_all\<lparr>ssl_write_rets := (ssl_write_rets w_write_all)(1 := [])\<rparr>)
   \<and> timeouts_applied [Ev_ssl_conf_read_timeout 1 5000, Ev_ssl_read 1 0 10 10] = [5000]
   \<and> timeouts_applied [Ev_ssl_write 1 0 10 10] = []
   \<and> HAL_iTLS_Write 1 10 1 w_write_all
     = Some (10, [Ev_ssl_write 1 0 10 10],
             w_write_all\<lparr>ssl_write_rets := (ssl_write_rets w_write_all)(1 := [])\<rparr>)"
proof -
  have h1: "HAL_iTLS_Read mbedtls_macros 1 10 5000 w_write_all
     = Some (10, [Ev_ssl_conf_read_timeout 1 5000, Ev_ssl_read 1 0 10 10],
             w_write_all\<lparr>net_status := 0, ssl_read_rets := (ssl_read_rets w_write_all)(1 := [])\<rparr>)"
    by (simp add: HAL_iTLS_Read_def network_ssl_read_def w_write_all_def Let_def word_sless_alt)
  have h2: "HAL_iTLS_Write 1 10 5000 w_write_all
     = Some (10, [Ev_ssl_write 1 0 10 10],
             w_write_all\<lparr>ssl_write_rets := (ssl_write_rets w_write_all)(1 := [])\<rparr>)"
    by (simp add: HAL_iTLS_Write_def network_ssl_write_def w_write_all_def Let_def word_sless_alt)
  note c = timeout_ms_read_only [OF h1 h2, where t' = 1]
  from h1 h2 c show ?thesis by blast
qed

text \<open>
  The claim as first stated has \<open>timeout_ms\<close> govern a write. A write with
  \<open>timeout_ms = 5000\<close> makes no call that carries 5000, and does what a write
  with \<open>timeout_ms = 1\<close> does.
\<close>

theorem write_timeout_ms_counterexample:
  "HAL_iTLS_Write 1 10 5000 w_write_all
     = Some (10, [Ev_ssl_write 1 0 10 10],
             w_write_all\<lparr>ssl_write_rets := (ssl_write_rets w_write_all)(1 := [])\<rparr>)
   \<and> 5000 \<notin> set (timeouts_applied [Ev_ssl_write 1 0 10 10])
   \<and> HAL_iTLS_Write 1 10 5000 w_write_all = HAL_iTLS_Write 1 10 1 w_write_all"
  by (simp add: HAL_iTLS_Write_def network_ssl_write_def w_write_all_def Let_def word_sless_alt
        timeouts_applied_def)

subsection \<open>The static \<open>net_status\<close>\<close>






subsection \<open>Connecting on Linux\<close>

lemma sndtimeo_append:
  "sndtimeo_before_connect t prev (xs @ ys) \<longleftrightarrow>
     sndtimeo_before_connect t prev xs
     \<and> sndtimeo_before_connect t (if xs = [] then prev else Some (last xs)) ys"
  by (induction xs arbitrary: prev) auto

lemma connect_targets_append [simp]:
  "connect_targets (xs @ ys) = connect_targets xs @ connect_targets ys"
  by (simp add: connect_targets_def)

lemma connect_targets_Cons [simp]:
  "connect_targets (e # es) = connect_target_of e @ connect_targets es"
  by (simp add: connect_targets_def)

lemma connect_targets_Nil [simp]: "connect_targets [] = []"
  by (simp add: connect_targets_def)

lemma tried_Nil [simp]: "tried [] = []"
  by (simp add: tried_def)

lemma tried_Cons:
  "tried (c # cs) = (if connects c then [c] else c # tried cs)"
  by (simp add: tried_def)

lemma connect_loop_spec:
  assumes "connect_loop K t ret0 fd0 cs = (ret, fd, es)"
  shows "connect_targets es = map (\<lambda>c. (socket_ret c, ai_addr c)) (filter socket_ok (tried cs))
         \<and> sndtimeo_before_connect t prev es
         \<and> (\<forall>e \<in> set es. socket_layer e)
         \<and> (es \<noteq> [] \<longrightarrow> (\<forall>fd' a. last es \<noteq> Ev_setsockopt_SO_SNDTIMEO fd' a))
         \<and> (case find connects cs of
               Some c \<Rightarrow> ret = 0 \<and> fd = socket_ret c
             | None \<Rightarrow>
                 ret = (if cs = [] then ret0
                        else if socket_ok (last cs) then MBEDTLS_ERR_NET_CONNECT_FAILED K
                        else MBEDTLS_ERR_NET_SOCKET_FAILED K)
                 \<and> fd = (if cs = [] then fd0 else socket_ret (last cs)))"
  using assms
proof (induction cs arbitrary: ret0 fd0 ret fd es prev)
  case Nil
  then show ?case by simp
next
  case (Cons c cs)
  let ?e = "Ev_socket (ai_family c) (ai_socktype c) (ai_protocol c) (socket_ret c)"
  show ?case
  proof (cases "socket_ret c <s 0")
    case True
    then obtain es' where
      run: "connect_loop K t (MBEDTLS_ERR_NET_SOCKET_FAILED K) (socket_ret c) cs = (ret, fd, es')"
      and es: "es = ?e # es'"
      using Cons.prems by (auto simp: Let_def split: prod.splits)
    note IH = Cons.IH [OF run, of "Some ?e"]
    have nc: "\<not> connects c" "\<not> socket_ok c" using True by (simp_all add: connects_def socket_ok_def)
    show ?thesis using IH es nc
      by (auto simp: tried_Cons split: option.splits)
  next
    case False
    then have ok: "socket_ok c" by (simp add: socket_ok_def)
    let ?attempt = "[?e, Ev_setsockopt_SO_SNDTIMEO (socket_ret c) t, Ev_connect (socket_ret c) (ai_addr c)]"
    show ?thesis
    proof (cases "connect_ret c = 0")
      case True
      then have "connects c" using ok by (simp add: connects_def)
      moreover have "ret = 0" "fd = socket_ret c" "es = ?attempt"
        using Cons.prems False True by (auto simp: Let_def)
      ultimately show ?thesis using ok by (simp add: tried_Cons)
    next
      case nz: False
      then have nc: "\<not> connects c" by (simp add: connects_def)
      obtain es' where
        run: "connect_loop K t (MBEDTLS_ERR_NET_CONNECT_FAILED K) (socket_ret c) cs = (ret, fd, es')"
        and es: "es = ?attempt @ Ev_close (socket_ret c) # es'"
        using Cons.prems False nz by (auto simp: Let_def split: prod.splits)
      note IH = Cons.IH [OF run, of "Some (Ev_close (socket_ret c))"]
      show ?thesis using IH es nc ok
        by (auto simp: tried_Cons split: option.splits)
    qed
  qed
qed

lemma mbedtls_net_connect_timeout_unfold:
  "mbedtls_net_connect_timeout K gai fd0 host port MBEDTLS_NET_PROTO_TCP t =
     (case gai of
        None \<Rightarrow> (MBEDTLS_ERR_NET_UNKNOWN_HOST K, fd0,
                 [Ev_signal_SIGPIPE_IGN, Ev_getaddrinfo host port AF_UNSPEC SOCK_STREAM IPPROTO_TCP])
      | Some cs \<Rightarrow>
          (case connect_loop K t (MBEDTLS_ERR_NET_UNKNOWN_HOST K) fd0 cs of
             (r, f, es) \<Rightarrow> (r, f, [Ev_signal_SIGPIPE_IGN,
                 Ev_getaddrinfo host port AF_UNSPEC SOCK_STREAM IPPROTO_TCP] @ es @ [Ev_freeaddrinfo])))"
  by (simp add: mbedtls_net_connect_timeout_def net_prepare_def Let_def split: option.splits)

subsection \<open>The calls of an establish\<close>

lemma prefix_before_event:
  assumes "A @ B = pre @ h # post" and "h \<notin> set A"
  shows "set A \<subseteq> set pre"
proof -
  from assms(1) obtain us where
    "(A = pre @ us \<and> us @ B = h # post) \<or> (A @ us = pre \<and> B = us @ h # post)"
    by (auto simp: append_eq_append_conv2)
  then show ?thesis
  proof
    assume a: "A = pre @ us \<and> us @ B = h # post"
    show ?thesis
    proof (cases us)
      case Nil
      then show ?thesis using a by simp
    next
      case (Cons u us')
      then have "h \<in> set A" using a by auto
      then show ?thesis using assms(2) by simp
    qed
  next
    assume "A @ us = pre \<and> B = us @ h # post"
    then show ?thesis by auto
  qed
qed

lemma handshake_loop_events:
  assumes "handshake_loop K p rs = Some (ret, es)"
  shows "es \<noteq> [] \<and> (\<forall>e \<in> set es. \<exists>r. e = Ev_ssl_handshake p r)
         \<and> last es = Ev_ssl_handshake p ret"
  using assms
proof (induction rs arbitrary: ret es)
  case Nil
  then show ?case by simp
next
  case (Cons r rs)
  show ?case
  proof (cases "r \<noteq> 0 \<and> \<not> (r \<noteq> MBEDTLS_ERR_SSL_WANT_READ K \<and> r \<noteq> MBEDTLS_ERR_SSL_WANT_WRITE K)")
    case False
    then show ?thesis using Cons.prems by (auto split: if_splits)
  next
    case True
    then obtain es' where run: "handshake_loop K p rs = Some (ret, es')"
      and es: "es = Ev_ssl_handshake p r # es'"
      using Cons.prems by (auto split: option.splits if_splits)
    from Cons.IH [OF run] show ?thesis using es by auto
  qed
qed

lemma net_connect_step_events:
  assumes "net_connect_step K env p addr port = (ret, es)"
  shows "\<forall>e \<in> set es. socket_layer e"
proof (cases "PLATFORM_IS_LINUX env")
  case False
  then show ?thesis using assms by (auto simp: net_connect_step_def)
next
  case True
  then obtain fd where run: "mbedtls_net_connect_timeout K (getaddrinfo_ret env) (- 1) addr port
      MBEDTLS_NET_PROTO_TCP SEND_TIMEOUT_SECONDS = (ret, fd, es)"
    using assms by (auto simp: net_connect_step_def split: prod.splits)
  show ?thesis
  proof (cases "getaddrinfo_ret env")
    case None
    then show ?thesis using run by (auto simp: mbedtls_net_connect_timeout_unfold)
  next
    case (Some cs)
    then obtain es' where
      loop: "connect_loop K SEND_TIMEOUT_SECONDS (MBEDTLS_ERR_NET_UNKNOWN_HOST K) (- 1) cs = (ret, fd, es')"
      and es: "es = [Ev_signal_SIGPIPE_IGN, Ev_getaddrinfo addr port AF_UNSPEC SOCK_STREAM IPPROTO_TCP]
                  @ es' @ [Ev_freeaddrinfo]"
      using run by (auto simp: mbedtls_net_connect_timeout_unfold split: prod.splits)
    from connect_loop_spec [OF loop, of None] have "\<forall>e \<in> set es'. socket_layer e" by simp
    then show ?thesis using es by auto
  qed
qed

lemma TLSConnectNetwork_cases:
  assumes "TLSConnectNetwork K env p addr port pk = Some (ret, es)"
  shows "(\<exists>e_conn e_hs.
            (\<forall>e \<in> set e_conn. socket_layer e)
          \<and> e_hs \<noteq> [] \<and> (\<forall>e \<in> set e_hs. \<exists>r. e = Ev_ssl_handshake p r)
          \<and> last e_hs = Ev_ssl_handshake p ret
          \<and> es = ([Ev_ssl_init p, Ev_net_init p, Ev_ssl_config_init p] @ e_conn @ conf_calls K p pk)
                   @ e_hs @ out_label p ret)
       \<or> (ret \<noteq> 0 \<and> (\<forall>e \<in> set es. \<forall>q r. e \<noteq> Ev_ssl_handshake q r)
           \<and> (\<forall>q a b. Ev_ssl_conf_max_version q a b \<in> set es \<or> Ev_ssl_conf_min_version q a b \<in> set es
                 \<longrightarrow> a = MBEDTLS_SSL_MAJOR_VERSION_3 K \<and> b = MBEDTLS_SSL_MINOR_VERSION_3 K))"
proof -
  obtain r0 e_conn where step: "net_connect_step K env p addr port = (r0, e_conn)"
    by (cases "net_connect_step K env p addr port")
  have sl: "\<forall>e \<in> set e_conn. socket_layer e" using net_connect_step_events [OF step] .
  have no: "\<And>q r. Ev_ssl_handshake q r \<notin> set e_conn"
    "\<And>q a b. Ev_ssl_conf_max_version q a b \<notin> set e_conn"
    "\<And>q a b. Ev_ssl_conf_min_version q a b \<notin> set e_conn"
    using sl by auto
  show ?thesis
  proof (cases "r0 = 0 \<and> ssl_config_defaults_ret env = 0 \<and> ssl_conf_auth_extra_ret env = 0
                 \<and> ssl_setup_ret env = 0")
    case True
    then obtain e_hs where hs: "handshake_loop K p (ssl_handshake_rets env) = Some (ret, e_hs)"
      and es: "es = ([Ev_ssl_init p, Ev_net_init p, Ev_ssl_config_init p] @ e_conn @ conf_calls K p pk)
                   @ e_hs @ out_label p ret"
      using assms step
      by (auto simp: TLSConnectNetwork_def Let_def conf_calls_def split: option.splits)
    show ?thesis using handshake_loop_events [OF hs] sl es by blast
  next
    case False
    then have "ret \<noteq> 0 \<and> (\<forall>e \<in> set es. \<forall>q r. e \<noteq> Ev_ssl_handshake q r)
           \<and> (\<forall>q a b. Ev_ssl_conf_max_version q a b \<in> set es \<or> Ev_ssl_conf_min_version q a b \<in> set es
                 \<longrightarrow> a = MBEDTLS_SSL_MAJOR_VERSION_3 K \<and> b = MBEDTLS_SSL_MINOR_VERSION_3 K)"
      using assms step no
      by (auto simp: TLSConnectNetwork_def Let_def out_label_def split: if_splits)
    then show ?thesis by blast
  qed
qed

lemma HAL_iTLS_Establish_SomeD:
  assumes "HAL_iTLS_Establish K env host port pk = Some (handle, es)"
  shows "(HAL_Malloc_ret env = NULL \<and> handle = NULL \<and> es = [Ev_HAL_Malloc NULL])
       \<or> (\<exists>ret es0. HAL_Malloc_ret env \<noteq> NULL
            \<and> TLSConnectNetwork K env (HAL_Malloc_ret env) host (sprintf_u port) pk = Some (ret, es0)
            \<and> handle = (if ret = 0 then HAL_Malloc_ret env else NULL)
            \<and> es = [Ev_HAL_Malloc (HAL_Malloc_ret env), Ev_memset (HAL_Malloc_ret env)] @ es0
                    @ (if ret = 0 then [] else [Ev_HAL_Free (HAL_Malloc_ret env)]))"
  using assms
  by (auto simp: HAL_iTLS_Establish_def Let_def split: if_splits option.splits)

lemma handshake_loop_returns:
  assumes "\<exists>r \<in> set rs. r = 0 \<or> (r \<noteq> MBEDTLS_ERR_SSL_WANT_READ K \<and> r \<noteq> MBEDTLS_ERR_SSL_WANT_WRITE K)"
  shows "handshake_loop K p rs \<noteq> None"
  using assms
proof (induction rs)
  case Nil
  then show ?case by simp
next
  case (Cons a rs)
  show ?case
  proof (cases "a = 0 \<or> (a \<noteq> MBEDTLS_ERR_SSL_WANT_READ K \<and> a \<noteq> MBEDTLS_ERR_SSL_WANT_WRITE K)")
    case True
    then show ?thesis by auto
  next
    case False
    then have "\<exists>r \<in> set rs. r = 0 \<or> (r \<noteq> MBEDTLS_ERR_SSL_WANT_READ K \<and> r \<noteq> MBEDTLS_ERR_SSL_WANT_WRITE K)"
      using Cons.prems by auto
    from Cons.IH [OF this] show ?thesis using False by (auto split: option.splits)
  qed
qed

lemma HAL_iTLS_Establish_returns:
  assumes "handshake_reached K env host port \<longrightarrow>
             (\<exists>r \<in> set (ssl_handshake_rets env).
                 r = 0 \<or> (r \<noteq> MBEDTLS_ERR_SSL_WANT_READ K \<and> r \<noteq> MBEDTLS_ERR_SSL_WANT_WRITE K))"
  shows "\<exists>handle es. HAL_iTLS_Establish K env host port product_key = Some (handle, es)"
proof (cases "handshake_reached K env host port")
  case True
  then have "handshake_loop K (HAL_Malloc_ret env) (ssl_handshake_rets env) \<noteq> None"
    using assms handshake_loop_returns by blast
  then obtain r e_hs where
    "handshake_loop K (HAL_Malloc_ret env) (ssl_handshake_rets env) = Some (r, e_hs)" by auto
  then show ?thesis using True
    by (auto simp: HAL_iTLS_Establish_def TLSConnectNetwork_def handshake_reached_def Let_def
          split: prod.splits)
next
  case False
  then show ?thesis
    by (auto simp: HAL_iTLS_Establish_def TLSConnectNetwork_def handshake_reached_def Let_def
          split: prod.splits option.splits)
qed

lemma TLSConnectNetwork_trace:
  assumes "TLSConnectNetwork K env p addr port pk = Some (ret, es)"
  shows "if fst (net_connect_step K env p addr port) = 0 \<and> ssl_config_defaults_ret env = 0
            \<and> ssl_conf_auth_extra_ret env = 0 \<and> ssl_setup_ret env = 0
         then \<exists>e_hs. handshake_loop K p (ssl_handshake_rets env) = Some (ret, e_hs)
                \<and> es = [Ev_ssl_init p, Ev_net_init p, Ev_ssl_config_init p]
                       @ snd (net_connect_step K env p addr port) @ conf_calls K p pk
                       @ e_hs @ out_label p ret
         else ret \<noteq> 0 \<and> (\<forall>q r. Ev_ssl_handshake q r \<notin> set es)
              \<and> (\<forall>q a b. Ev_ssl_conf_max_version q a b \<in> set es \<or> Ev_ssl_conf_min_version q a b \<in> set es
                    \<longrightarrow> a = MBEDTLS_SSL_MAJOR_VERSION_3 K \<and> b = MBEDTLS_SSL_MINOR_VERSION_3 K)"
proof -
  obtain r0 e_conn where step: "net_connect_step K env p addr port = (r0, e_conn)"
    by (cases "net_connect_step K env p addr port")
  have sl: "\<forall>e \<in> set e_conn. socket_layer e" using net_connect_step_events [OF step] .
  have no: "\<And>q r. Ev_ssl_handshake q r \<notin> set e_conn"
    "\<And>q a b. Ev_ssl_conf_max_version q a b \<notin> set e_conn"
    "\<And>q a b. Ev_ssl_conf_min_version q a b \<notin> set e_conn"
    using sl by auto
  show ?thesis
  proof (cases "r0 = 0 \<and> ssl_config_defaults_ret env = 0 \<and> ssl_conf_auth_extra_ret env = 0
                 \<and> ssl_setup_ret env = 0")
    case True
    then obtain e_hs where hs: "handshake_loop K p (ssl_handshake_rets env) = Some (ret, e_hs)"
      and es: "es = [Ev_ssl_init p, Ev_net_init p, Ev_ssl_config_init p] @ e_conn @ conf_calls K p pk
                   @ e_hs @ out_label p ret"
      using assms step
      by (auto simp: TLSConnectNetwork_def Let_def conf_calls_def split: option.splits)
    then show ?thesis using True step by auto
  next
    case False
    then have "ret \<noteq> 0 \<and> (\<forall>q r. Ev_ssl_handshake q r \<notin> set es)
           \<and> (\<forall>q a b. Ev_ssl_conf_max_version q a b \<in> set es \<or> Ev_ssl_conf_min_version q a b \<in> set es
                 \<longrightarrow> a = MBEDTLS_SSL_MAJOR_VERSION_3 K \<and> b = MBEDTLS_SSL_MINOR_VERSION_3 K)"
      using assms step no
      by (auto simp: TLSConnectNetwork_def Let_def out_label_def split: if_splits)
    then show ?thesis using False step by auto
  qed
qed

lemma establish_trace_shape:
  assumes "HAL_iTLS_Establish K env host port product_key = Some (handle, es)"
  shows "(handle \<noteq> NULL \<longrightarrow> handle = HAL_Malloc_ret env \<and> handshake_reached K env host port)
       \<and> ((\<exists>q r. Ev_ssl_handshake q r \<in> set es) \<longleftrightarrow> handshake_reached K env host port)
       \<and> (handshake_reached K env host port \<longrightarrow>
            (\<exists>e_conn e_hs tail.
                es = [Ev_HAL_Malloc (HAL_Malloc_ret env), Ev_memset (HAL_Malloc_ret env),
                      Ev_ssl_init (HAL_Malloc_ret env), Ev_net_init (HAL_Malloc_ret env),
                      Ev_ssl_config_init (HAL_Malloc_ret env)]
                     @ e_conn @ conf_calls K (HAL_Malloc_ret env) product_key @ e_hs @ tail
              \<and> (\<forall>e \<in> set e_conn. socket_layer e)
              \<and> e_hs \<noteq> []
              \<and> (\<forall>e \<in> set e_hs. \<exists>r. e = Ev_ssl_handshake (HAL_Malloc_ret env) r)
              \<and> (\<forall>q r. Ev_ssl_handshake q r \<notin> set tail)))
       \<and> (\<forall>pre q r post. es = pre @ Ev_ssl_handshake q r # post \<longrightarrow>
            Ev_ssl_conf_max_version q (MBEDTLS_SSL_MAJOR_VERSION_3 K) (MBEDTLS_SSL_MINOR_VERSION_3 K) \<in> set pre
          \<and> Ev_ssl_conf_min_version q (MBEDTLS_SSL_MAJOR_VERSION_3 K) (MBEDTLS_SSL_MINOR_VERSION_3 K) \<in> set pre
          \<and> Ev_ssl_conf_auth_extra q product_key (length product_key) \<in> set pre)
       \<and> (\<forall>q a b. Ev_ssl_conf_max_version q a b \<in> set es \<or> Ev_ssl_conf_min_version q a b \<in> set es
             \<longrightarrow> a = MBEDTLS_SSL_MAJOR_VERSION_3 K \<and> b = MBEDTLS_SSL_MINOR_VERSION_3 K)"
proof -
  let ?p = "HAL_Malloc_ret env"
  let ?R = "handshake_reached K env host port"
  let ?head = "[Ev_HAL_Malloc ?p, Ev_memset ?p, Ev_ssl_init ?p, Ev_net_init ?p, Ev_ssl_config_init ?p]"
  let ?pinned = "\<lambda>es. \<forall>q a b. Ev_ssl_conf_max_version q a b \<in> set es \<or> Ev_ssl_conf_min_version q a b \<in> set es
             \<longrightarrow> a = MBEDTLS_SSL_MAJOR_VERSION_3 K \<and> b = MBEDTLS_SSL_MINOR_VERSION_3 K"
  show ?thesis
  proof (cases ?R)
    case False
    have "handle = NULL \<and> (\<forall>q r. Ev_ssl_handshake q r \<notin> set es) \<and> ?pinned es"
    proof (cases "?p = NULL")
      case True
      then show ?thesis using HAL_iTLS_Establish_SomeD [OF assms] by auto
    next
      case nn: False
      then obtain ret es0 where
        run: "TLSConnectNetwork K env ?p host (sprintf_u port) product_key = Some (ret, es0)"
        and h: "handle = (if ret = 0 then ?p else NULL)"
        and es: "es = [Ev_HAL_Malloc ?p, Ev_memset ?p] @ es0 @ (if ret = 0 then [] else [Ev_HAL_Free ?p])"
        using HAL_iTLS_Establish_SomeD [OF assms] by auto
      have nC: "\<not> (fst (net_connect_step K env ?p host (sprintf_u port)) = 0
                \<and> ssl_config_defaults_ret env = 0
                \<and> ssl_conf_auth_extra_ret env = 0 \<and> ssl_setup_ret env = 0)"
        using False nn by (simp add: handshake_reached_def)
      have "ret \<noteq> 0 \<and> (\<forall>q r. Ev_ssl_handshake q r \<notin> set es0) \<and> ?pinned es0"
        using TLSConnectNetwork_trace [OF run] unfolding if_not_P [OF nC] .
      then have r: "ret \<noteq> 0" and nh: "\<forall>q r. Ev_ssl_handshake q r \<notin> set es0"
        and pn: "?pinned es0" by blast+
      have 1: "handle = NULL" using h r by simp
      have 2: "\<forall>q r. Ev_ssl_handshake q r \<notin> set es" using es nh by (auto split: if_splits)
      have 3: "?pinned es"
      proof (intro allI impI)
        fix q a b
        assume "Ev_ssl_conf_max_version q a b \<in> set es \<or> Ev_ssl_conf_min_version q a b \<in> set es"
        then have "Ev_ssl_conf_max_version q a b \<in> set es0 \<or> Ev_ssl_conf_min_version q a b \<in> set es0"
          using es by (auto split: if_splits)
        then show "a = MBEDTLS_SSL_MAJOR_VERSION_3 K \<and> b = MBEDTLS_SSL_MINOR_VERSION_3 K"
          using pn by blast
      qed
      show ?thesis using 1 2 3 by blast
    qed
    then have 1: "handle = NULL" and 2: "\<forall>q r. Ev_ssl_handshake q r \<notin> set es"
      and 3: "?pinned es" by blast+
    have 4: "\<forall>pre q r post. es \<noteq> pre @ Ev_ssl_handshake q r # post"
      using 2 by (metis in_set_conv_decomp)
    show ?thesis using False 1 2 3 4 by blast
  next
    case True
    then have nn: "?p \<noteq> NULL" by (simp add: handshake_reached_def)
    then obtain ret es0 where
      run: "TLSConnectNetwork K env ?p host (sprintf_u port) product_key = Some (ret, es0)"
      and h: "handle = (if ret = 0 then ?p else NULL)"
      and es: "es = [Ev_HAL_Malloc ?p, Ev_memset ?p] @ es0 @ (if ret = 0 then [] else [Ev_HAL_Free ?p])"
      using HAL_iTLS_Establish_SomeD [OF assms] by auto
    let ?e_conn = "snd (net_connect_step K env ?p host (sprintf_u port))"
    have C: "fst (net_connect_step K env ?p host (sprintf_u port)) = 0
                \<and> ssl_config_defaults_ret env = 0
                \<and> ssl_conf_auth_extra_ret env = 0 \<and> ssl_setup_ret env = 0"
      using True by (simp add: handshake_reached_def)
    from TLSConnectNetwork_trace [OF run, unfolded if_P [OF C]] obtain e_hs where
      hs: "handshake_loop K ?p (ssl_handshake_rets env) = Some (ret, e_hs)"
      and es0: "es0 = [Ev_ssl_init ?p, Ev_net_init ?p, Ev_ssl_config_init ?p]
                       @ ?e_conn @ conf_calls K ?p product_key @ e_hs @ out_label ?p ret"
      by blast
    let ?tail = "out_label ?p ret @ (if ret = 0 then [] else [Ev_HAL_Free ?p])"
    have shape: "es = ?head @ ?e_conn @ conf_calls K ?p product_key @ e_hs @ ?tail"
      using es es0 by simp
    have sl: "\<forall>e \<in> set ?e_conn. socket_layer e"
      using net_connect_step_events [of K env ?p host "sprintf_u port"] by (metis prod.collapse)
    note hsE = handshake_loop_events [OF hs]
    have tl: "\<forall>q r. Ev_ssl_handshake q r \<notin> set ?tail" by (auto simp: out_label_def)
    have no: "\<And>q r. Ev_ssl_handshake q r \<notin> set ?e_conn"
      "\<And>q a b. Ev_ssl_conf_max_version q a b \<notin> set ?e_conn"
      "\<And>q a b. Ev_ssl_conf_min_version q a b \<notin> set ?e_conn"
      using sl by auto
    have nh: "\<And>q a b. Ev_ssl_conf_max_version q a b \<notin> set e_hs"
      "\<And>q a b. Ev_ssl_conf_min_version q a b \<notin> set e_hs"
      using hsE by auto
    have a: "handle \<noteq> NULL \<longrightarrow> handle = ?p \<and> ?R" using h True by (auto split: if_splits)
    have "Ev_ssl_handshake ?p ret \<in> set e_hs" using hsE by (metis last_in_set)
    then have b: "(\<exists>q r. Ev_ssl_handshake q r \<in> set es) \<longleftrightarrow> ?R" using True shape by auto
    have c: "\<exists>e_conn e_hs tail. es = ?head @ e_conn @ conf_calls K ?p product_key @ e_hs @ tail
              \<and> (\<forall>e \<in> set e_conn. socket_layer e) \<and> e_hs \<noteq> []
              \<and> (\<forall>e \<in> set e_hs. \<exists>r. e = Ev_ssl_handshake ?p r)
              \<and> (\<forall>q r. Ev_ssl_handshake q r \<notin> set tail)"
      using shape sl hsE tl by blast
    have d: "Ev_ssl_conf_max_version q (MBEDTLS_SSL_MAJOR_VERSION_3 K) (MBEDTLS_SSL_MINOR_VERSION_3 K) \<in> set pre
          \<and> Ev_ssl_conf_min_version q (MBEDTLS_SSL_MAJOR_VERSION_3 K) (MBEDTLS_SSL_MINOR_VERSION_3 K) \<in> set pre
          \<and> Ev_ssl_conf_auth_extra q product_key (length product_key) \<in> set pre"
      if split: "es = pre @ Ev_ssl_handshake q r # post" for pre q r post
    proof -
      let ?H = "Ev_ssl_handshake q r"
      let ?A = "?head @ ?e_conn @ conf_calls K ?p product_key"
      have "?H \<in> set es" using split by simp
      then have "?H \<in> set e_hs" using shape no(1) tl by (auto simp: conf_calls_def)
      then have q: "q = ?p" using hsE by auto
      have AB: "?A @ (e_hs @ ?tail) = pre @ ?H # post" using shape split by simp
      have "?H \<notin> set ?A" using no(1) by (simp add: conf_calls_def)
      from prefix_before_event [OF AB this] have "set (conf_calls K ?p product_key) \<subseteq> set pre"
        by auto
      then show ?thesis using q by (auto simp: conf_calls_def)
    qed
    have e: "?pinned es"
      using shape no(2,3) nh by (auto simp: conf_calls_def out_label_def split: if_splits)
    show ?thesis using a b c d e by blast
  qed
qed

text \<open>
  Claim C6. An establish returns whenever the handshake, if it is reached, gets a
  return value other than \<open>WANT_READ\<close> / \<open>WANT_WRITE\<close>. A handle other than \<open>NULL\<close>
  is returned only when the handshake was reached, and the handshake is called
  exactly when it is reached (\<open>handshake_reached\<close>). When it is reached the calls of
  the establish are the initialisations, the connect, the configuration calls
  \<open>conf_calls\<close> and then the handshake calls: so before every handshake call the
  configuration has been given the maximum and the minimum version, both
  \<open>MBEDTLS_SSL_MAJOR_VERSION_3\<close> / \<open>MBEDTLS_SSL_MINOR_VERSION_3\<close>, and the caller's
  product key with its length as the authentication extra. No call of an establish
  sets another version.
\<close>

theorem establish_pins_version_and_registers_key:
  "((handshake_reached K env host port \<longrightarrow>
        (\<exists>r \<in> set (ssl_handshake_rets env).
            r = 0 \<or> (r \<noteq> MBEDTLS_ERR_SSL_WANT_READ K \<and> r \<noteq> MBEDTLS_ERR_SSL_WANT_WRITE K)))
      \<longrightarrow> (\<exists>handle es. HAL_iTLS_Establish K env host port product_key = Some (handle, es)))
   \<and> (\<forall>handle es. HAL_iTLS_Establish K env host port product_key = Some (handle, es) \<longrightarrow>
         (handle \<noteq> NULL \<longrightarrow> handle = HAL_Malloc_ret env \<and> handshake_reached K env host port)
       \<and> ((\<exists>q r. Ev_ssl_handshake q r \<in> set es) \<longleftrightarrow> handshake_reached K env host port)
       \<and> (handshake_reached K env host port \<longrightarrow>
            (\<exists>e_conn e_hs tail.
                es = [Ev_HAL_Malloc (HAL_Malloc_ret env), Ev_memset (HAL_Malloc_ret env),
                      Ev_ssl_init (HAL_Malloc_ret env), Ev_net_init (HAL_Malloc_ret env),
                      Ev_ssl_config_init (HAL_Malloc_ret env)]
                     @ e_conn @ conf_calls K (HAL_Malloc_ret env) product_key @ e_hs @ tail
              \<and> (\<forall>e \<in> set e_conn. socket_layer e)
              \<and> e_hs \<noteq> []
              \<and> (\<forall>e \<in> set e_hs. \<exists>r. e = Ev_ssl_handshake (HAL_Malloc_ret env) r)
              \<and> (\<forall>q r. Ev_ssl_handshake q r \<notin> set tail)))
       \<and> (\<forall>pre q r post. es = pre @ Ev_ssl_handshake q r # post \<longrightarrow>
            Ev_ssl_conf_max_version q (MBEDTLS_SSL_MAJOR_VERSION_3 K) (MBEDTLS_SSL_MINOR_VERSION_3 K) \<in> set pre
          \<and> Ev_ssl_conf_min_version q (MBEDTLS_SSL_MAJOR_VERSION_3 K) (MBEDTLS_SSL_MINOR_VERSION_3 K) \<in> set pre
          \<and> Ev_ssl_conf_auth_extra q product_key (length product_key) \<in> set pre)
       \<and> (\<forall>q a b. Ev_ssl_conf_max_version q a b \<in> set es \<or> Ev_ssl_conf_min_version q a b \<in> set es
             \<longrightarrow> a = MBEDTLS_SSL_MAJOR_VERSION_3 K \<and> b = MBEDTLS_SSL_MINOR_VERSION_3 K))"
proof (rule conjI)
  show "(handshake_reached K env host port \<longrightarrow>
        (\<exists>r \<in> set (ssl_handshake_rets env).
            r = 0 \<or> (r \<noteq> MBEDTLS_ERR_SSL_WANT_READ K \<and> r \<noteq> MBEDTLS_ERR_SSL_WANT_WRITE K)))
      \<longrightarrow> (\<exists>handle es. HAL_iTLS_Establish K env host port product_key = Some (handle, es))"
    by (rule impI) (rule HAL_iTLS_Establish_returns)
next
  show "\<forall>handle es. HAL_iTLS_Establish K env host port product_key = Some (handle, es) \<longrightarrow>
         (handle \<noteq> NULL \<longrightarrow> handle = HAL_Malloc_ret env \<and> handshake_reached K env host port)
       \<and> ((\<exists>q r. Ev_ssl_handshake q r \<in> set es) \<longleftrightarrow> handshake_reached K env host port)
       \<and> (handshake_reached K env host port \<longrightarrow>
            (\<exists>e_conn e_hs tail.
                es = [Ev_HAL_Malloc (HAL_Malloc_ret env), Ev_memset (HAL_Malloc_ret env),
                      Ev_ssl_init (HAL_Malloc_ret env), Ev_net_init (HAL_Malloc_ret env),
                      Ev_ssl_config_init (HAL_Malloc_ret env)]
                     @ e_conn @ conf_calls K (HAL_Malloc_ret env) product_key @ e_hs @ tail
              \<and> (\<forall>e \<in> set e_conn. socket_layer e)
              \<and> e_hs \<noteq> []
              \<and> (\<forall>e \<in> set e_hs. \<exists>r. e = Ev_ssl_handshake (HAL_Malloc_ret env) r)
              \<and> (\<forall>q r. Ev_ssl_handshake q r \<notin> set tail)))
       \<and> (\<forall>pre q r post. es = pre @ Ev_ssl_handshake q r # post \<longrightarrow>
            Ev_ssl_conf_max_version q (MBEDTLS_SSL_MAJOR_VERSION_3 K) (MBEDTLS_SSL_MINOR_VERSION_3 K) \<in> set pre
          \<and> Ev_ssl_conf_min_version q (MBEDTLS_SSL_MAJOR_VERSION_3 K) (MBEDTLS_SSL_MINOR_VERSION_3 K) \<in> set pre
          \<and> Ev_ssl_conf_auth_extra q product_key (length product_key) \<in> set pre)
       \<and> (\<forall>q a b. Ev_ssl_conf_max_version q a b \<in> set es \<or> Ev_ssl_conf_min_version q a b \<in> set es
             \<longrightarrow> a = MBEDTLS_SSL_MAJOR_VERSION_3 K \<and> b = MBEDTLS_SSL_MINOR_VERSION_3 K)"
    by (intro allI impI) (rule establish_trace_shape)
qed

lemma establish_env_ok:
  "HAL_iTLS_Establish mbedtls_macros env_ok ''host'' 443 ''pk''
     = Some (1, establish_ok_trace @ Ev_ssl_handshake 1 (- 0x6900) # [Ev_ssl_handshake 1 0])"
  by (simp add: HAL_iTLS_Establish_def TLSConnectNetwork_def net_connect_step_def
        mbedtls_net_connect_timeout_def net_prepare_def env_ok_def addr_v4_def addr_v6_def
        mbedtls_macros_def SEND_TIMEOUT_SECONDS_def NULL_def sprintf_u_def digit_char_def
        out_label_def establish_ok_trace_def Let_def word_sless_alt)

theorem establish_pins_version_and_registers_key_witness:
  "(\<exists>r \<in> set (ssl_handshake_rets env_ok).
       r = 0 \<or> (r \<noteq> MBEDTLS_ERR_SSL_WANT_READ mbedtls_macros \<and> r \<noteq> MBEDTLS_ERR_SSL_WANT_WRITE mbedtls_macros))
   \<and> HAL_iTLS_Establish mbedtls_macros env_ok ''host'' 443 ''pk''
       = Some (1, establish_ok_trace @ Ev_ssl_handshake 1 (- 0x6900) # [Ev_ssl_handshake 1 0])
   \<and> (1 :: uintptr_t) \<noteq> NULL
   \<and> handshake_reached mbedtls_macros env_ok ''host'' 443
   \<and> Ev_ssl_conf_max_version 1 3 3 \<in> set establish_ok_trace
   \<and> Ev_ssl_conf_min_version 1 3 3 \<in> set establish_ok_trace
   \<and> Ev_ssl_conf_auth_extra 1 ''pk'' 2 \<in> set establish_ok_trace"
proof -
  have h0: "\<exists>r \<in> set (ssl_handshake_rets env_ok).
       r = 0 \<or> (r \<noteq> MBEDTLS_ERR_SSL_WANT_READ mbedtls_macros \<and> r \<noteq> MBEDTLS_ERR_SSL_WANT_WRITE mbedtls_macros)"
    by (simp add: env_ok_def)
  note h1 = establish_env_ok
  have h2: "(1 :: uintptr_t) \<noteq> NULL" by (simp add: NULL_def)
  note c = establish_pins_version_and_registers_key
             [where K = mbedtls_macros and env = env_ok and host = "''host''" and port = 443
                and product_key = "''pk''"]
  from c h1 h2 have r: "handshake_reached mbedtls_macros env_ok ''host'' 443" by blast
  have e: "MBEDTLS_SSL_MAJOR_VERSION_3 mbedtls_macros = 3"
    "MBEDTLS_SSL_MINOR_VERSION_3 mbedtls_macros = 3"
    by (simp_all add: mbedtls_macros_def)
  have l: "length ''pk'' = 2" by simp
  from c h1 have
    "Ev_ssl_conf_max_version 1 (MBEDTLS_SSL_MAJOR_VERSION_3 mbedtls_macros)
         (MBEDTLS_SSL_MINOR_VERSION_3 mbedtls_macros) \<in> set establish_ok_trace
   \<and> Ev_ssl_conf_min_version 1 (MBEDTLS_SSL_MAJOR_VERSION_3 mbedtls_macros)
         (MBEDTLS_SSL_MINOR_VERSION_3 mbedtls_macros) \<in> set establish_ok_trace
   \<and> Ev_ssl_conf_auth_extra 1 ''pk'' (length ''pk'') \<in> set establish_ok_trace"
    by blast
  then have v: "Ev_ssl_conf_max_version 1 3 3 \<in> set establish_ok_trace
   \<and> Ev_ssl_conf_min_version 1 3 3 \<in> set establish_ok_trace
   \<and> Ev_ssl_conf_auth_extra 1 ''pk'' 2 \<in> set establish_ok_trace"
    by (simp only: e l)
  from h0 h1 h2 r v show ?thesis by (intro conjI) blast+
qed

subsection \<open>The connect step of an establish on Linux\<close>

lemma TLSConnectNetwork_prefix:
  assumes "TLSConnectNetwork K env p addr port pk = Some (ret, es)"
  shows "\<exists>rest. es = [Ev_ssl_init p, Ev_net_init p, Ev_ssl_config_init p]
                      @ snd (net_connect_step K env p addr port) @ rest"
    and "ret = 0 \<longrightarrow> fst (net_connect_step K env p addr port) = 0"
  using assms
  by (auto simp: TLSConnectNetwork_def Let_def split: prod.splits if_splits option.splits)

text \<open>
  Claim C7, as amended. On Linux the connect step of an establish is
  \<open>mbedtls_net_connect_timeout\<close> for the host and the port printed in decimal,
  with a timeout of 10 seconds: its calls follow the initialisations in the calls of
  every establish, an establish that returns a handle had it return 0, and when it
  returns an error the establish frees the handle and returns \<open>NULL\<close>. It resolves
  host and port with family \<open>AF_UNSPEC\<close> (IPv4 and IPv6), then visits the resolved
  addresses in order up to the first that connects; every \<open>connect\<close> comes right
  after the \<open>setsockopt\<close> that sets \<open>SO_SNDTIMEO\<close> to 10 seconds on that socket. It
  returns 0 and the descriptor of the first address that connects; the
  unknown-host error when name resolution fails; and, when no address connects,
  the error of the last address visited: connect-failed when its \<open>connect\<close>
  failed, socket-failed when no socket could be created for it (unknown-host when
  the list is empty).
\<close>

theorem linux_connect_with_send_timeout:
  assumes "PLATFORM_IS_LINUX env"
    and "HAL_Malloc_ret env \<noteq> NULL"
  shows "\<exists>ret fd e_conn.
      mbedtls_net_connect_timeout K (getaddrinfo_ret env) (- 1) host (sprintf_u port)
          MBEDTLS_NET_PROTO_TCP 10 = (ret, fd, e_conn)
    \<and> (ret \<noteq> 0 \<longrightarrow>
          HAL_iTLS_Establish K env host port product_key
            = Some (NULL, [Ev_HAL_Malloc (HAL_Malloc_ret env), Ev_memset (HAL_Malloc_ret env),
                           Ev_ssl_init (HAL_Malloc_ret env), Ev_net_init (HAL_Malloc_ret env),
                           Ev_ssl_config_init (HAL_Malloc_ret env)]
                          @ e_conn @ [Ev_HAL_Free (HAL_Malloc_ret env)]))
    \<and> (\<forall>handle es. HAL_iTLS_Establish K env host port product_key = Some (handle, es) \<longrightarrow>
          (\<exists>rest. es = [Ev_HAL_Malloc (HAL_Malloc_ret env), Ev_memset (HAL_Malloc_ret env),
                         Ev_ssl_init (HAL_Malloc_ret env), Ev_net_init (HAL_Malloc_ret env),
                         Ev_ssl_config_init (HAL_Malloc_ret env)] @ e_conn @ rest)
          \<and> (handle \<noteq> NULL \<longrightarrow> ret = 0))
    \<and> take 2 e_conn = [Ev_signal_SIGPIPE_IGN,
                        Ev_getaddrinfo host (sprintf_u port) AF_UNSPEC SOCK_STREAM IPPROTO_TCP]
    \<and> sndtimeo_before_connect 10 None e_conn
    \<and> (getaddrinfo_ret env = None \<longrightarrow>
          ret = MBEDTLS_ERR_NET_UNKNOWN_HOST K \<and> connect_targets e_conn = [])
    \<and> (\<forall>cs. getaddrinfo_ret env = Some cs \<longrightarrow>
          connect_targets e_conn = map (\<lambda>c. (socket_ret c, ai_addr c)) (filter socket_ok (tried cs))
          \<and> (\<forall>c. find connects cs = Some c \<longrightarrow> ret = 0 \<and> fd = socket_ret c)
          \<and> (find connects cs = None \<longrightarrow>
                ret = (if cs = [] then MBEDTLS_ERR_NET_UNKNOWN_HOST K
                       else if socket_ok (last cs) then MBEDTLS_ERR_NET_CONNECT_FAILED K
                       else MBEDTLS_ERR_NET_SOCKET_FAILED K)))"
proof -
  let ?p = "HAL_Malloc_ret env"
  let ?port = "sprintf_u port"
  let ?head = "[Ev_signal_SIGPIPE_IGN, Ev_getaddrinfo host ?port AF_UNSPEC SOCK_STREAM IPPROTO_TCP]"
  let ?pre = "[Ev_HAL_Malloc ?p, Ev_memset ?p, Ev_ssl_init ?p, Ev_net_init ?p, Ev_ssl_config_init ?p]"
  obtain ret fd e_conn where
    run: "mbedtls_net_connect_timeout K (getaddrinfo_ret env) (- 1) host ?port
            MBEDTLS_NET_PROTO_TCP 10 = (ret, fd, e_conn)"
    by (cases "mbedtls_net_connect_timeout K (getaddrinfo_ret env) (- 1) host ?port
            MBEDTLS_NET_PROTO_TCP 10") auto
  have step: "net_connect_step K env ?p host ?port = (ret, e_conn)"
    using assms(1) run by (simp add: net_connect_step_def SEND_TIMEOUT_SECONDS_def)
  have t1: "ret \<noteq> 0 \<longrightarrow> HAL_iTLS_Establish K env host port product_key
            = Some (NULL, ?pre @ e_conn @ [Ev_HAL_Free ?p])"
    using step assms(2) by (auto simp: HAL_iTLS_Establish_def TLSConnectNetwork_def Let_def)
  have t2: "(\<exists>rest. es = ?pre @ e_conn @ rest) \<and> (handle \<noteq> NULL \<longrightarrow> ret = 0)"
    if est: "HAL_iTLS_Establish K env host port product_key = Some (handle, es)" for handle es
  proof -
    from HAL_iTLS_Establish_SomeD [OF est] assms(2) obtain r0 es0 where
      tls: "TLSConnectNetwork K env ?p host ?port product_key = Some (r0, es0)"
      and h: "handle = (if r0 = 0 then ?p else NULL)"
      and es: "es = [Ev_HAL_Malloc ?p, Ev_memset ?p] @ es0 @ (if r0 = 0 then [] else [Ev_HAL_Free ?p])"
      by auto
    from TLSConnectNetwork_prefix [OF tls] step obtain rest0 where
      es0: "es0 = [Ev_ssl_init ?p, Ev_net_init ?p, Ev_ssl_config_init ?p] @ e_conn @ rest0"
      and r: "r0 = 0 \<longrightarrow> ret = 0" by auto
    have "es = ?pre @ e_conn @ (rest0 @ (if r0 = 0 then [] else [Ev_HAL_Free ?p]))"
      using es es0 by simp
    moreover have "handle \<noteq> NULL \<longrightarrow> ret = 0" using h r by (auto split: if_splits)
    ultimately show ?thesis by blast
  qed
  have props: "take 2 e_conn = ?head
    \<and> sndtimeo_before_connect 10 None e_conn
    \<and> (getaddrinfo_ret env = None \<longrightarrow>
          ret = MBEDTLS_ERR_NET_UNKNOWN_HOST K \<and> connect_targets e_conn = [])
    \<and> (\<forall>cs. getaddrinfo_ret env = Some cs \<longrightarrow>
          connect_targets e_conn = map (\<lambda>c. (socket_ret c, ai_addr c)) (filter socket_ok (tried cs))
          \<and> (\<forall>c. find connects cs = Some c \<longrightarrow> ret = 0 \<and> fd = socket_ret c)
          \<and> (find connects cs = None \<longrightarrow>
                ret = (if cs = [] then MBEDTLS_ERR_NET_UNKNOWN_HOST K
                       else if socket_ok (last cs) then MBEDTLS_ERR_NET_CONNECT_FAILED K
                       else MBEDTLS_ERR_NET_SOCKET_FAILED K)))"
  proof (cases "getaddrinfo_ret env")
    case None
    then have "ret = MBEDTLS_ERR_NET_UNKNOWN_HOST K" "e_conn = ?head"
      using run by (simp_all add: mbedtls_net_connect_timeout_unfold)
    then show ?thesis using None by simp
  next
    case (Some cs)
    obtain es' where
      loop: "connect_loop K 10 (MBEDTLS_ERR_NET_UNKNOWN_HOST K) (- 1) cs = (ret, fd, es')"
      and es: "e_conn = ?head @ es' @ [Ev_freeaddrinfo]"
      using run Some by (auto simp: mbedtls_net_connect_timeout_unfold split: prod.splits)
    note spec = connect_loop_spec [OF loop,
        of "Some (Ev_getaddrinfo host ?port AF_UNSPEC SOCK_STREAM IPPROTO_TCP)"]
    have a: "take 2 e_conn = ?head" using es by simp
    have b: "sndtimeo_before_connect 10 None e_conn"
      using spec es by (simp add: sndtimeo_append)
    have c: "connect_targets e_conn = map (\<lambda>c. (socket_ret c, ai_addr c)) (filter socket_ok (tried cs))"
      using spec es by simp
    have d: "\<forall>c. find connects cs = Some c \<longrightarrow> ret = 0 \<and> fd = socket_ret c"
      using spec by (auto split: option.splits)
    have e: "find connects cs = None \<longrightarrow>
                ret = (if cs = [] then MBEDTLS_ERR_NET_UNKNOWN_HOST K
                       else if socket_ok (last cs) then MBEDTLS_ERR_NET_CONNECT_FAILED K
                       else MBEDTLS_ERR_NET_SOCKET_FAILED K)"
      using spec by (auto split: option.splits)
    show ?thesis using a b c d e Some by simp
  qed
  have t2': "\<forall>handle es. HAL_iTLS_Establish K env host port product_key = Some (handle, es) \<longrightarrow>
          (\<exists>rest. es = ?pre @ e_conn @ rest) \<and> (handle \<noteq> NULL \<longrightarrow> ret = 0)"
    using t2 by blast
  show ?thesis
    by (rule exI [of _ ret], rule exI [of _ fd], rule exI [of _ e_conn])
       (rule conjI [OF run conjI [OF t1 conjI [OF t2' props]]])
qed

theorem linux_connect_with_send_timeout_witness:
  "PLATFORM_IS_LINUX env_ok \<and> HAL_Malloc_ret env_ok \<noteq> NULL
   \<and> mbedtls_net_connect_timeout mbedtls_macros (getaddrinfo_ret env_ok) (- 1) ''host'' (sprintf_u 443)
        MBEDTLS_NET_PROTO_TCP 10 = (0, 4, connect_ok_trace)
   \<and> find connects [addr_v4, addr_v6] = Some addr_v6
   \<and> socket_ret addr_v6 = 4
   \<and> sndtimeo_before_connect 10 None connect_ok_trace
   \<and> connect_targets connect_ok_trace = [(3, ''192.0.2.1:443''), (4, ''[2001:db8::1]:443'')]
   \<and> PLATFORM_IS_LINUX env_refused \<and> HAL_Malloc_ret env_refused \<noteq> NULL
   \<and> mbedtls_net_connect_timeout mbedtls_macros (getaddrinfo_ret env_refused) (- 1) ''host'' (sprintf_u 443)
        MBEDTLS_NET_PROTO_TCP 10
      = (MBEDTLS_ERR_NET_CONNECT_FAILED mbedtls_macros, 3, connect_refused_trace)
   \<and> MBEDTLS_ERR_NET_CONNECT_FAILED mbedtls_macros \<noteq> 0
   \<and> HAL_iTLS_Establish mbedtls_macros env_refused ''host'' 443 ''pk''
       = Some (NULL, [Ev_HAL_Malloc 1, Ev_memset 1, Ev_ssl_init 1, Ev_net_init 1, Ev_ssl_config_init 1]
                     @ connect_refused_trace @ [Ev_HAL_Free 1])"
proof -
  have h1: "PLATFORM_IS_LINUX env_ok" by (simp add: env_ok_def)
  have h2: "HAL_Malloc_ret env_ok \<noteq> NULL" by (simp add: env_ok_def NULL_def)
  have h3: "mbedtls_net_connect_timeout mbedtls_macros (getaddrinfo_ret env_ok) (- 1) ''host'' (sprintf_u 443)
        MBEDTLS_NET_PROTO_TCP 10 = (0, 4, connect_ok_trace)"
    by (simp add: mbedtls_net_connect_timeout_def net_prepare_def env_ok_def addr_v4_def
          addr_v6_def mbedtls_macros_def connect_ok_trace_def sprintf_u_def digit_char_def Let_def
          word_sless_alt)
  have h4: "find connects [addr_v4, addr_v6] = Some addr_v6"
    by (simp add: connects_def socket_ok_def addr_v4_def addr_v6_def word_sless_alt)
  have h5: "socket_ret addr_v6 = 4" by (simp add: addr_v6_def)
  have g: "getaddrinfo_ret env_ok = Some [addr_v4, addr_v6]" by (simp add: env_ok_def)
  note c = linux_connect_with_send_timeout [OF h1 h2, where K = mbedtls_macros
             and host = "''host''" and port = 443 and product_key = "''pk''", unfolded h3]
  have c1: "sndtimeo_before_connect 10 None connect_ok_trace" using c by blast
  have "connect_targets connect_ok_trace
          = map (\<lambda>c. (socket_ret c, ai_addr c)) (filter socket_ok (tried [addr_v4, addr_v6]))"
    using c g by blast
  then have c2: "connect_targets connect_ok_trace = [(3, ''192.0.2.1:443''), (4, ''[2001:db8::1]:443'')]"
    by (simp add: tried_def connects_def socket_ok_def addr_v4_def addr_v6_def word_sless_alt)
  have k1: "PLATFORM_IS_LINUX env_refused" by (simp add: env_refused_def env_ok_def)
  have k2: "HAL_Malloc_ret env_refused \<noteq> NULL" by (simp add: env_refused_def env_ok_def NULL_def)
  have k3: "mbedtls_net_connect_timeout mbedtls_macros (getaddrinfo_ret env_refused) (- 1) ''host'' (sprintf_u 443)
        MBEDTLS_NET_PROTO_TCP 10
      = (MBEDTLS_ERR_NET_CONNECT_FAILED mbedtls_macros, 3, connect_refused_trace)"
    by (simp add: mbedtls_net_connect_timeout_def net_prepare_def env_refused_def env_ok_def
          addr_v4_def mbedtls_macros_def connect_refused_trace_def sprintf_u_def digit_char_def
          Let_def word_sless_alt)
  have k4: "MBEDTLS_ERR_NET_CONNECT_FAILED mbedtls_macros \<noteq> 0" by (simp add: mbedtls_macros_def)
  have m: "HAL_Malloc_ret env_refused = 1" by (simp add: env_refused_def env_ok_def)
  note d = linux_connect_with_send_timeout [OF k1 k2, where K = mbedtls_macros
             and host = "''host''" and port = 443 and product_key = "''pk''", unfolded k3 m]
  have d1: "HAL_iTLS_Establish mbedtls_macros env_refused ''host'' 443 ''pk''
       = Some (NULL, [Ev_HAL_Malloc 1, Ev_memset 1, Ev_ssl_init 1, Ev_net_init 1, Ev_ssl_config_init 1]
                     @ connect_refused_trace @ [Ev_HAL_Free 1])"
    using d k4 by blast
  show ?thesis using h1 h2 h3 h4 h5 c1 c2 k1 k2 k3 k4 d1 by (intro conjI)
qed

text \<open>
  The claim as first stated gives the connect-failed error whenever every
  \<open>connect\<close> fails. Of two resolved addresses the \<open>connect\<close> to the first fails and
  \<open>socket\<close> fails for the second: the only \<open>connect\<close> made has failed, and the
  result is the socket-failed error.
\<close>

theorem linux_connect_last_error_counterexample:
  "mbedtls_net_connect_timeout mbedtls_macros (getaddrinfo_ret env_no_socket) (- 1) ''host''
       (sprintf_u 443) MBEDTLS_NET_PROTO_TCP SEND_TIMEOUT_SECONDS
     = (MBEDTLS_ERR_NET_SOCKET_FAILED mbedtls_macros, - 1, connect_no_socket_trace)
   \<and> connect_targets connect_no_socket_trace = [(3, ''192.0.2.1:443'')]
   \<and> connect_ret addr_v4 \<noteq> 0
   \<and> MBEDTLS_ERR_NET_SOCKET_FAILED mbedtls_macros \<noteq> MBEDTLS_ERR_NET_CONNECT_FAILED mbedtls_macros
   \<and> HAL_iTLS_Establish mbedtls_macros env_no_socket ''host'' 443 ''pk''
       = Some (NULL, [Ev_HAL_Malloc 1, Ev_memset 1, Ev_ssl_init 1, Ev_net_init 1, Ev_ssl_config_init 1]
                     @ connect_no_socket_trace @ [Ev_HAL_Free 1])"
  by (simp add: HAL_iTLS_Establish_def TLSConnectNetwork_def net_connect_step_def NULL_def
        mbedtls_net_connect_timeout_def net_prepare_def env_no_socket_def env_ok_def
        addr_v4_def addr_no_socket_def mbedtls_macros_def SEND_TIMEOUT_SECONDS_def
        connect_no_socket_trace_def connect_targets_def sprintf_u_def digit_char_def Let_def
        word_sless_alt)

subsection \<open>What a failed establish leaves\<close>

lemma live_resources_append:
  "live_resources (xs @ ys) = foldl live_step (live_resources xs) ys"
  by (simp add: live_resources_def)

lemma foldl_live_step_neutral:
  assumes "\<forall>e \<in> set es. \<forall>L. live_step L e = L"
  shows "foldl live_step L es = L"
  using assms by (induction es arbitrary: L) simp_all

lemma socket_layer_neutral:
  assumes "socket_layer e"
  shows "live_step L e = L"
  using assms by (cases e) simp_all

lemma establish_failure_after_connect_releases_all:
  assumes "HAL_iTLS_Establish K env host port pk = Some (NULL, es)"
    and "HAL_Malloc_ret env \<noteq> NULL"
    and "fst (net_connect_step K env (HAL_Malloc_ret env) host (sprintf_u port)) = 0"
  shows "live_resources es = {}"
proof -
  let ?p = "HAL_Malloc_ret env"
  from HAL_iTLS_Establish_SomeD [OF assms(1)] assms(2) obtain ret es0 where
    run: "TLSConnectNetwork K env ?p host (sprintf_u port) pk = Some (ret, es0)"
    and ret: "ret \<noteq> 0"
    and es: "es = [Ev_HAL_Malloc ?p, Ev_memset ?p] @ es0 @ [Ev_HAL_Free ?p]"
    by (auto split: if_splits)
  obtain e_conn where step: "net_connect_step K env ?p host (sprintf_u port) = (0, e_conn)"
    using assms(3) by (cases "net_connect_step K env ?p host (sprintf_u port)") simp
  have n1: "\<forall>e \<in> set e_conn. \<forall>L. live_step L e = L"
    using net_connect_step_events [OF step] socket_layer_neutral by blast
  have c: "\<And>L. foldl live_step L e_conn = L" using foldl_live_step_neutral [OF n1] .
  let ?init = "[Ev_ssl_init ?p, Ev_net_init ?p, Ev_ssl_config_init ?p]"
  let ?out = "[Ev_net_free ?p, Ev_ssl_free ?p, Ev_ssl_config_free ?p]"
  have "\<exists>mid. es0 = ?init @ e_conn @ mid @ ?out \<and> (\<forall>e \<in> set mid. \<forall>L. live_step L e = L)"
  proof (cases "ssl_config_defaults_ret env = 0 \<and> ssl_conf_auth_extra_ret env = 0
                 \<and> ssl_setup_ret env = 0")
    case True
    then obtain e_hs where hs: "handshake_loop K ?p (ssl_handshake_rets env) = Some (ret, e_hs)"
      and es0: "es0 = ?init @ e_conn @ (conf_calls K ?p pk @ e_hs) @ out_label ?p ret"
      using run step
      by (auto simp: TLSConnectNetwork_def Let_def conf_calls_def split: option.splits)
    have "\<forall>e \<in> set e_hs. \<forall>L. live_step L e = L"
      using handshake_loop_events [OF hs] by auto
    then have "\<forall>e \<in> set (conf_calls K ?p pk @ e_hs). \<forall>L. live_step L e = L"
      by (auto simp: conf_calls_def)
    then show ?thesis using es0 ret by (auto simp: out_label_def)
  next
    case False
    then show ?thesis using run step ret
      by (auto simp: TLSConnectNetwork_def Let_def out_label_def split: if_splits)
  qed
  then obtain mid where es0: "es0 = ?init @ e_conn @ mid @ ?out"
    and n2: "\<forall>e \<in> set mid. \<forall>L. live_step L e = L" by blast
  have m: "\<And>L. foldl live_step L mid = L" using foldl_live_step_neutral [OF n2] .
  have "es = ([Ev_HAL_Malloc ?p, Ev_memset ?p] @ ?init) @ e_conn @ mid @ (?out @ [Ev_HAL_Free ?p])"
    using es es0 by simp
  then show ?thesis using assms(2) c m
    by (auto simp: live_resources_def)
qed

text \<open>
  Claim C5, at the failing input. Name resolution fails: \<open>_TLSConnectNetwork\<close>
  returns at once, without the calls at \<open>_out\<close>. The establish returns \<open>NULL\<close>
  and frees the handle, and the three contexts it initialised are never passed to
  their \<open>free\<close> functions. (When the connect succeeded and a later step fails,
  nothing stays live: \<open>establish_failure_after_connect_releases_all\<close>.)
\<close>

theorem establish_connect_failure_skips_cleanup:
  "HAL_iTLS_Establish mbedtls_macros env_unknown_host ''host'' 443 ''pk''
     = Some (NULL, connect_failed_trace)
   \<and> HAL_Malloc_ret env_unknown_host \<noteq> NULL
   \<and> live_resources connect_failed_trace = {Ssl_context 1, Net_context 1, Config_context 1}"
  by (simp add: HAL_iTLS_Establish_def TLSConnectNetwork_def net_connect_step_def
        mbedtls_net_connect_timeout_def net_prepare_def env_unknown_host_def env_ok_def
        mbedtls_macros_def SEND_TIMEOUT_SECONDS_def NULL_def sprintf_u_def digit_char_def
        connect_failed_trace_def live_resources_def Let_def word_sless_alt) auto

subsection \<open>Destroy\<close>

lemma establish_success_live:
  assumes "HAL_iTLS_Establish K env host port pk = Some (handle, es)"
    and "handle \<noteq> NULL"
  shows "live_resources es
           = {Handle_memory handle, Ssl_context handle, Net_context handle, Config_context handle}"
proof -
  let ?p = "HAL_Malloc_ret env"
  from HAL_iTLS_Establish_SomeD [OF assms(1)] assms(2) obtain es0 where
    run: "TLSConnectNetwork K env ?p host (sprintf_u port) pk = Some (0, es0)"
    and p: "handle = ?p"
    and es: "es = [Ev_HAL_Malloc ?p, Ev_memset ?p] @ es0"
    by (auto split: if_splits)
  from TLSConnectNetwork_cases [OF run] obtain e_conn e_hs where
    sl: "\<forall>e \<in> set e_conn. socket_layer e"
    and hs: "\<forall>e \<in> set e_hs. \<exists>r. e = Ev_ssl_handshake ?p r"
    and es0: "es0 = ([Ev_ssl_init ?p, Ev_net_init ?p, Ev_ssl_config_init ?p] @ e_conn
                      @ conf_calls K ?p pk) @ e_hs @ out_label ?p 0"
    by blast
  have n1: "\<forall>e \<in> set e_conn. \<forall>L. live_step L e = L"
    using sl socket_layer_neutral by blast
  have n2: "\<forall>e \<in> set (conf_calls K ?p pk @ e_hs). \<forall>L. live_step L e = L"
    using hs by (auto simp: conf_calls_def)
  have c: "\<And>L. foldl live_step L e_conn = L" using foldl_live_step_neutral [OF n1] .
  have m: "\<And>L. foldl live_step L (conf_calls K ?p pk @ e_hs) = L"
    using foldl_live_step_neutral [OF n2] .
  have "es = [Ev_HAL_Malloc ?p, Ev_memset ?p, Ev_ssl_init ?p, Ev_net_init ?p, Ev_ssl_config_init ?p]
             @ e_conn @ (conf_calls K ?p pk @ e_hs)"
    using es es0 by (simp add: out_label_def)
  then have "live_resources es
      = foldl live_step (foldl live_step
          (live_resources [Ev_HAL_Malloc ?p, Ev_memset ?p, Ev_ssl_init ?p, Ev_net_init ?p,
                           Ev_ssl_config_init ?p]) e_conn) (conf_calls K ?p pk @ e_hs)"
    by (simp only: live_resources_append foldl_append)
  then show ?thesis using c m assms(2) p by (auto simp: live_resources_def)
qed

text \<open>
  Claim C9. \<open>HAL_iTLS_Destroy\<close> of \<open>NULL\<close> returns 0 and makes no call. For any
  other handle it returns 0 after five calls: the TLS close notify, the release of
  the network, session and configuration contexts, and the release of the handle's
  memory; after them nothing that the establish of that handle acquired is live.
\<close>

theorem HAL_iTLS_Destroy_effect:
  "HAL_iTLS_Destroy NULL = (0, [])
   \<and> (handle \<noteq> NULL \<longrightarrow>
        HAL_iTLS_Destroy handle
          = (0, [Ev_ssl_close_notify handle, Ev_net_free handle, Ev_ssl_free handle,
                 Ev_ssl_config_free handle, Ev_HAL_Free handle])
        \<and> (\<forall>K env host port pk es.
              HAL_iTLS_Establish K env host port pk = Some (handle, es) \<longrightarrow>
              live_resources (es @ snd (HAL_iTLS_Destroy handle)) = {}))"
proof -
  have a: "HAL_iTLS_Destroy NULL = (0, [])" by (simp add: HAL_iTLS_Destroy_def)
  have b: "handle \<noteq> NULL \<Longrightarrow> HAL_iTLS_Destroy handle
          = (0, [Ev_ssl_close_notify handle, Ev_net_free handle, Ev_ssl_free handle,
                 Ev_ssl_config_free handle, Ev_HAL_Free handle])"
    by (auto simp: HAL_iTLS_Destroy_def network_ssl_disconnect_def)
  have c: "live_resources (es @ snd (HAL_iTLS_Destroy handle)) = {}"
    if "handle \<noteq> NULL" "HAL_iTLS_Establish K env host port pk = Some (handle, es)"
    for K env host port pk es
    using establish_success_live [OF that(2) that(1)] b [OF that(1)]
    by (auto simp: live_resources_append)
  show ?thesis using a b c by blast
qed

theorem HAL_iTLS_Destroy_effect_witness:
  "(1 :: uintptr_t) \<noteq> NULL
   \<and> HAL_iTLS_Destroy 1
       = (0, [Ev_ssl_close_notify 1, Ev_net_free 1, Ev_ssl_free 1, Ev_ssl_config_free 1,
              Ev_HAL_Free 1])
   \<and> HAL_iTLS_Establish mbedtls_macros env_ok ''host'' 443 ''pk''
       = Some (1, establish_ok_trace @ Ev_ssl_handshake 1 (- 0x6900) # [Ev_ssl_handshake 1 0])
   \<and> live_resources ((establish_ok_trace @ Ev_ssl_handshake 1 (- 0x6900) # [Ev_ssl_handshake 1 0])
         @ snd (HAL_iTLS_Destroy 1)) = {}"
proof -
  have h1: "(1 :: uintptr_t) \<noteq> NULL" by (simp add: NULL_def)
  note h2 = establish_env_ok
  note c = HAL_iTLS_Destroy_effect [of 1]
  from h1 h2 c show ?thesis by blast
qed

subsection \<open>The port string\<close>

lemma length_utoa_bound:
  "n < 10 ^ k \<Longrightarrow> 0 < k \<Longrightarrow> length (utoa n) \<le> k"
proof (induction n arbitrary: k rule: utoa.induct)
  case (1 n)
  show ?case
  proof (cases "n < 10")
    case True
    then show ?thesis using 1(3) by (subst utoa.simps) simp
  next
    case False
    then obtain j where k: "k = Suc j"  using 1(3) by (cases k) auto
    have "0 < j" using False 1(2) k by (cases j) auto
    moreover have "n div 10 < 10 ^ j" using 1(2) k by (simp add: less_mult_imp_div_less)
    ultimately have "length (utoa (n div 10)) \<le> j" using 1(1) [OF False] by simp
    then show ?thesis using False k by (subst utoa.simps) simp
  qed
qed

text \<open>
  Claim C10. For every \<open>uint16_t\<close> port, \<open>"%u"\<close> produces at most 5 digits, so
  \<open>sprintf\<close> stores at most 6 bytes with the terminator: the 6 bytes of
  \<open>port_str\<close> are enough.
\<close>

theorem port_str_never_overrun:
  "length (sprintf_u port) \<le> 5 \<and> sprintf_u_stored port \<le> port_str_size"
proof -
  have "unat port < 2 ^ 16" using unsigned_less [of port, where 'a = nat] by simp
  then have "unat port < 10 ^ 5" by simp
  then have "length (utoa (unat port)) \<le> 5" by (rule length_utoa_bound) simp
  then show ?thesis by (simp add: sprintf_u_stored_def sprintf_u_def port_str_size_def)
qed

end
